theory Spec2Isabelle
  imports Complex_Main
begin

section \<open>The block parser of \<open>medical_data_parser.py\<close>\<close>

text \<open>
  A shallow embedding of the class \<open>MedicalDataParser\<close>. Python strings are modelled as
  \<open>string\<close> (lists of 8-bit characters, read as the code points 0 to 255), the list
  returned by \<open>read_file\<close> is the input of \<open>process_blocks\<close>, the dictionary
  \<open>self.blocks\<close> is an association list in insertion order, text written by \<open>print\<close>
  is a list of messages, and an exception that leaves \<open>process_blocks\<close> is the left
  summand of the result.
\<close>

subsection \<open>Strings\<close>

text \<open>\<open>str.isspace\<close> on one character, for the code points below 256.\<close>

definition isspace :: "char \<Rightarrow> bool" where
  "isspace c \<longleftrightarrow> c \<in> {CHR 0x09, CHR 0x0A, CHR 0x0B, CHR 0x0C, CHR 0x0D,
     CHR 0x1C, CHR 0x1D, CHR 0x1E, CHR 0x1F, CHR 0x20, CHR 0x85, CHR 0xA0}"

text \<open>\<open>s.strip()\<close>: leading and trailing whitespace removed.\<close>

definition strip :: "string \<Rightarrow> string" where
  "strip s = rev (dropWhile isspace (rev (dropWhile isspace s)))"

text \<open>\<open>sub in s\<close>: \<open>sub\<close> occurs in \<open>s\<close> as a contiguous substring.\<close>

fun contains :: "string \<Rightarrow> string \<Rightarrow> bool" where
  "contains sub [] = (sub = [])"
| "contains sub (c # cs) = (take (length sub) (c # cs) = sub \<or> contains sub cs)"

text \<open>
  \<open>s.split(sep)\<close> for a separator of one character, here given by a predicate: the
  fields between separators, empty fields included, so the result is never empty.
\<close>

fun split_on :: "(char \<Rightarrow> bool) \<Rightarrow> string \<Rightarrow> string list" where
  "split_on p [] = [[]]"
| "split_on p (c # cs) =
     (let fields = split_on p cs
      in if p c then [] # fields else (c # hd fields) # tl fields)"

text \<open>\<open>s.split()\<close>: the maximal runs of non-whitespace characters.\<close>

definition split_ws :: "string \<Rightarrow> string list" where
  "split_ws s = filter (\<lambda>w. w \<noteq> []) (split_on isspace s)"

text \<open>
  \<open>re.sub(r'\([^)]*\)', '', line)\<close>: scanning from the left, an opening parenthesis
  that has a closing one somewhere after it is removed together with everything up to
  and including the first closing parenthesis; any other character is kept.
\<close>

function remove_parenthetical :: "string \<Rightarrow> string" where
  "remove_parenthetical [] = []"
| "remove_parenthetical (c # cs) =
     (if c = CHR ''('' \<and> CHR '')'' \<in> set cs
      then remove_parenthetical (tl (dropWhile (\<lambda>x. x \<noteq> CHR '')'') cs))
      else c # remove_parenthetical cs)"
  by pat_completeness auto
termination
proof (relation "measure length")
  show "wf (measure length)" by simp
next
  fix c :: char and cs :: string
  have "length (tl (dropWhile (\<lambda>x. x \<noteq> CHR '')'') cs)) \<le> length cs"
    using length_dropWhile_le [of "\<lambda>x. x \<noteq> CHR '')''" cs] by simp
  then show "(tl (dropWhile (\<lambda>x. x \<noteq> CHR '')'') cs), c # cs) \<in> measure length"
    by simp
next
  fix c :: char and cs :: string
  show "(cs, c # cs) \<in> measure length" by simp
qed

subsection \<open>Line classification and tokenizers\<close>

definition is_header_line :: "string \<Rightarrow> bool" where
  "is_header_line line = contains ''*'' line"

definition is_format_line :: "string \<Rightarrow> bool" where
  "is_format_line line = (contains ''(dd/mm/yyyy'' line \<or> contains ''(min)'' line)"

text \<open>\<open>re.sub(r'\*+', '', line).strip()\<close>: every asterisk removed, then stripped.\<close>

definition extract_block_name :: "string \<Rightarrow> string" where
  "extract_block_name line = strip (filter (\<lambda>c. c \<noteq> CHR ''*'') line)"

definition parse_columns :: "string \<Rightarrow> string list" where
  "parse_columns line =
     (let clean_line = remove_parenthetical line
      in map strip (filter (\<lambda>col. strip col \<noteq> []) (split_ws clean_line)))"

definition parse_data_line :: "string \<Rightarrow> string list" where
  "parse_data_line line =
     map strip (filter (\<lambda>val. strip val \<noteq> []) (split_on (\<lambda>c. c = CHR 0x09) line))"

subsection \<open>Tables\<close>

text \<open>
  A cell of a \<open>DataFrame\<close>: a missing value (\<open>pd.NA\<close>, \<open>NaN\<close>), a Python string, a
  timestamp or a number. The types of timestamps and of numbers are parameters:
  \<open>pandas\<close> owns them, and the parser never looks inside.
\<close>

datatype ('t, 'n) cell = NA | Text string | Timestamp 't | Num 'n

text \<open>
  A \<open>DataFrame\<close>: the column labels in order (repeated labels are allowed, as in
  \<open>pandas\<close>) and the rows in order, every row holding one cell per label.
\<close>

record ('t, 'n) dataframe =
  columns :: "string list"
  rows :: "('t, 'n) cell list list"

text \<open>\<open>pd.DataFrame()\<close>.\<close>

definition empty_dataframe :: "('t, 'n) dataframe" where
  "empty_dataframe = \<lparr>columns = [], rows = []\<rparr>"

text \<open>\<open>pd.DataFrame(data, columns=columns)\<close> for a list of rows of strings.\<close>

definition DataFrame :: "string list list \<Rightarrow> string list \<Rightarrow> ('t, 'n) dataframe" where
  "DataFrame data cols = \<lparr>columns = cols, rows = map (map Text) data\<rparr>"

text \<open>The positions that carry the label \<open>col\<close>.\<close>

definition label_positions :: "('t, 'n) dataframe \<Rightarrow> string \<Rightarrow> nat list" where
  "label_positions df col =
     filter (\<lambda>i. columns df ! i = col) [0..<length (columns df)]"

text \<open>The column at position \<open>i\<close>, read and replaced.\<close>

definition series :: "nat \<Rightarrow> ('t, 'n) dataframe \<Rightarrow> ('t, 'n) cell list" where
  "series i df = map (\<lambda>r. r ! i) (rows df)"

definition assign :: "nat \<Rightarrow> ('t, 'n) cell list \<Rightarrow> ('t, 'n) dataframe \<Rightarrow> ('t, 'n) dataframe" where
  "assign i vs df = df\<lparr>rows := map (\<lambda>(r, v). r[i := v]) (zip (rows df) vs)\<rparr>"

subsection \<open>The \<open>pandas\<close> conversions\<close>

text \<open>
  \<open>pd.to_datetime(s, format='%d/%m/%Y %H:%M')\<close> on a column of strings. The parameter
  \<open>strp\<close> reads one string against the format (\<open>None\<close> when it does not match).
  \<open>pandas\<close> raises \<open>ValueError\<close> as soon as one element does not match, and returns
  the converted column otherwise: the result is \<open>None\<close> for the exception.
\<close>

definition to_datetime :: "(string \<Rightarrow> 't option) \<Rightarrow> ('t, 'n) cell list \<Rightarrow> ('t, 'n) cell list option" where
  "to_datetime strp cs =
     those (map (\<lambda>c. case c of Text s \<Rightarrow> map_option Timestamp (strp s) | _ \<Rightarrow> Some c) cs)"

text \<open>\<open>s.replace('-', pd.NA)\<close>: the cells equal to the string \<open>-\<close> become missing.\<close>

definition replace_hyphen :: "('t, 'n) cell list \<Rightarrow> ('t, 'n) cell list" where
  "replace_hyphen cs = map (\<lambda>c. if c = Text ''-'' then NA else c) cs"

text \<open>
  \<open>pd.to_numeric(s, errors='ignore')\<close> on a column of strings and missing values.
  \<open>pandas\<close> reads every string as a number and then settles one dtype for the whole
  column. With \<open>errors='ignore'\<close> it returns its input unchanged when one string is no
  number, and also when the elements cannot share a dtype (an integer that needs the
  unsigned 64-bit type next to a negative integer or a missing value). Otherwise every
  string is replaced by its number in the dtype of the column, which may differ from
  the number read alone (an integer in a column that turns float is rounded to a
  float), and missing cells stay missing. What \<open>pandas\<close> does here is a parameter of
  three parts: how one string reads, which columns of tokens have no common dtype, and
  what a number becomes in the dtype of its column. A column is given to the last two
  by its tokens, \<open>None\<close> for a missing value. In \<open>create_dataframe\<close> the cells of
  such a column are strings and missing values only.
\<close>

record 'n numeric_reader =
  read_token :: "string \<Rightarrow> 'n option"
  dtype_conflict :: "string option list \<Rightarrow> bool"
  dtype_cast :: "string option list \<Rightarrow> 'n \<Rightarrow> 'n"

definition cell_token :: "('t, 'n) cell \<Rightarrow> string option" where
  "cell_token c = (case c of Text s \<Rightarrow> Some s | _ \<Rightarrow> None)"

definition to_numeric_ignore :: "'n numeric_reader \<Rightarrow> ('t, 'n) cell list \<Rightarrow> ('t, 'n) cell list" where
  "to_numeric_ignore num cs =
     (let tokens = map cell_token cs
      in case those (map (\<lambda>c. case c of
                 Text s \<Rightarrow> map_option (\<lambda>n. Num (dtype_cast num tokens n)) (read_token num s)
               | _ \<Rightarrow> Some c) cs) of
           None \<Rightarrow> cs
         | Some vs \<Rightarrow> if dtype_conflict num tokens then cs else vs)"

subsection \<open>\<open>create_dataframe\<close>\<close>

datatype error = TypeError | KeyError

datatype message = Error_converting_time_values | Time_column_left_as_string

text \<open>
  The loop over \<open>block_lines\<close> (source lines 80 to 91), with its two variables
  \<open>columns\<close> (\<open>None\<close> until the first line that is not a format line) and \<open>data\<close>.
\<close>

fun collect :: "string list option \<Rightarrow> string list list \<Rightarrow> string list \<Rightarrow>
    string list option \<times> string list list" where
  "collect cols data [] = (cols, data)"
| "collect cols data (line # block_lines) =
     (if is_format_line line then collect cols data block_lines
      else (case cols of
          None \<Rightarrow> collect (Some (parse_columns line)) data block_lines
        | Some cs \<Rightarrow>
            (let vals = parse_data_line line
             in if vals \<noteq> [] \<and> length vals = length cs
                then collect cols (data @ [vals]) block_lines
                else collect cols data block_lines)))"

text \<open>
  Source lines 100 to 105. \<open>df['Time']\<close> is a column when the label occurs once. When
  it occurs several times \<open>df['Time']\<close> is a frame, on which \<open>pd.to_datetime\<close> raises
  \<open>ValueError\<close> (it cannot assemble a date from repeated keys); the handler catches
  that as it catches a string that does not match, and prints the two messages.
\<close>

definition convert_time_column :: "(string \<Rightarrow> 't option) \<Rightarrow> ('t, 'n) dataframe \<Rightarrow>
    ('t, 'n) dataframe \<times> message list" where
  "convert_time_column strp df =
     (if ''Time'' \<in> set (columns df) then
        (case label_positions df ''Time'' of
           [i] \<Rightarrow>
             (case to_datetime strp (series i df) of
                Some ts \<Rightarrow> (assign i ts df, [])
              | None \<Rightarrow> (df, [Error_converting_time_values, Time_column_left_as_string]))
         | _ \<Rightarrow> (df, [Error_converting_time_values, Time_column_left_as_string]))
      else (df, []))"

text \<open>
  Source lines 108 to 110, the loop over the labels. \<open>df[col]\<close> raises \<open>KeyError\<close> for
  an absent label; for a label that occurs several times it is a frame, and
  \<open>pd.to_numeric\<close> raises \<open>TypeError\<close> on a frame before it converts anything. Nothing
  catches either.
\<close>

fun convert_numeric_columns :: "'n numeric_reader \<Rightarrow> string list \<Rightarrow> ('t, 'n) dataframe \<Rightarrow>
    error + ('t, 'n) dataframe" where
  "convert_numeric_columns num [] df = Inr df"
| "convert_numeric_columns num (col # cols) df =
     (if col \<noteq> ''Time'' then
        (case label_positions df col of
           [] \<Rightarrow> Inl KeyError
         | [i] \<Rightarrow>
             convert_numeric_columns num cols
               (assign i (to_numeric_ignore num (replace_hyphen (series i df))) df)
         | _ \<Rightarrow> Inl TypeError)
      else convert_numeric_columns num cols df)"

definition create_dataframe :: "(string \<Rightarrow> 't option) \<Rightarrow> 'n numeric_reader \<Rightarrow> string list \<Rightarrow>
    error + ('t, 'n) dataframe \<times> message list" where
  "create_dataframe strp num block_lines =
     (case collect None [] block_lines of
        (None, data) \<Rightarrow> Inr (empty_dataframe, [])
      | (Some cols, data) \<Rightarrow>
          if cols = [] \<or> data = [] then Inr (empty_dataframe, [])
          else
            (case convert_time_column strp (DataFrame data cols) of
               (df, out) \<Rightarrow>
                 (case convert_numeric_columns num (columns df) df of
                    Inl e \<Rightarrow> Inl e
                  | Inr df' \<Rightarrow> Inr (df', out))))"

subsection \<open>\<open>process_blocks\<close>\<close>

text \<open>
  The state of a parser object: the dictionary \<open>self.blocks\<close>, in insertion order, and
  what has been printed so far.
\<close>

record ('t, 'n) parser =
  blocks :: "(string \<times> ('t, 'n) dataframe) list"
  printed :: "message list"

text \<open>\<open>MedicalDataParser(file_path)\<close>: no blocks yet.\<close>

definition new_parser :: "('t, 'n) parser" where
  "new_parser = \<lparr>blocks = [], printed = []\<rparr>"

text \<open>
  \<open>d[k] = v\<close> on a dictionary in insertion order: a key that is present keeps its
  position and takes the new value, a new key goes to the end.
\<close>

fun dict_set :: "('k \<times> 'v) list \<Rightarrow> 'k \<Rightarrow> 'v \<Rightarrow> ('k \<times> 'v) list" where
  "dict_set [] k v = [(k, v)]"
| "dict_set ((k', v') # kvs) k v =
     (if k' = k then (k', v) # kvs else (k', v') # dict_set kvs k v)"

text \<open>
  \<open>if current_block_name and current_block: self.blocks[current_block_name] =
  self.create_dataframe(current_block)\<close>, as it stands at source lines 61 and 71. The
  name is \<open>None\<close> before the first header; \<open>None\<close> and the empty string are false.
\<close>

definition store_block :: "(string \<Rightarrow> 't option) \<Rightarrow> 'n numeric_reader \<Rightarrow> ('t, 'n) parser \<Rightarrow>
    string option \<Rightarrow> string list \<Rightarrow> error + ('t, 'n) parser" where
  "store_block strp num p current_block_name current_block =
     (case current_block_name of
        None \<Rightarrow> Inr p
      | Some name \<Rightarrow>
          if name \<noteq> [] \<and> current_block \<noteq> [] then
            (case create_dataframe strp num current_block of
               Inl e \<Rightarrow> Inl e
             | Inr (df, out) \<Rightarrow>
                 Inr (p\<lparr>blocks := dict_set (blocks p) name df, printed := printed p @ out\<rparr>))
          else Inr p)"

text \<open>The loop over the lines (source lines 54 to 68) and the last block (71, 72).\<close>

fun process_lines :: "(string \<Rightarrow> 't option) \<Rightarrow> 'n numeric_reader \<Rightarrow> ('t, 'n) parser \<Rightarrow>
    string option \<Rightarrow> string list \<Rightarrow> string list \<Rightarrow> error + ('t, 'n) parser" where
  "process_lines strp num p current_block_name current_block [] =
     store_block strp num p current_block_name current_block"
| "process_lines strp num p current_block_name current_block (raw # lines) =
     (let line = strip raw
      in if line = [] then process_lines strp num p current_block_name current_block lines
         else if is_header_line line then
           (case store_block strp num p current_block_name current_block of
              Inl e \<Rightarrow> Inl e
            | Inr p' \<Rightarrow> process_lines strp num p' (Some (extract_block_name line)) [] lines)
         else process_lines strp num p current_block_name (current_block @ [line]) lines)"

text \<open>
  \<open>process_blocks\<close>, on the lines that \<open>read_file\<close> returned: nothing happens for an
  empty list.
\<close>

definition process_blocks :: "(string \<Rightarrow> 't option) \<Rightarrow> 'n numeric_reader \<Rightarrow> ('t, 'n) parser \<Rightarrow>
    string list \<Rightarrow> error + ('t, 'n) parser" where
  "process_blocks strp num p lines =
     (if lines = [] then Inr p else process_lines strp num p None [] lines)"

definition get_block_names :: "('t, 'n) parser \<Rightarrow> string list" where
  "get_block_names p = map fst (blocks p)"

text \<open>\<open>self.blocks.get(block_name, pd.DataFrame())\<close>.\<close>

definition get_block :: "('t, 'n) parser \<Rightarrow> string \<Rightarrow> ('t, 'n) dataframe" where
  "get_block p block_name =
     (case map_of (blocks p) block_name of Some df \<Rightarrow> df | None \<Rightarrow> empty_dataframe)"

subsection \<open>Reference readers for single cells\<close>

text \<open>
  Two concrete readers, used wherever a statement below is about concrete file
  contents. Both are deliberately small: they cover what the format string and plain
  decimal literals denote, not every spelling that \<open>pandas\<close> accepts (exponents,
  \<open>inf\<close>, \<open>NaT\<close>), nor the range limits of its timestamps and integers, nor the
  rounding of its floats. The general theorems quantify over all readers.
\<close>

definition isdigit :: "char \<Rightarrow> bool" where
  "isdigit c \<longleftrightarrow> c \<in> set ''0123456789''"

definition nat_of_digits :: "string \<Rightarrow> nat" where
  "nat_of_digits ds = foldl (\<lambda>n c. 10 * n + (of_char c - 48)) 0 ds"

definition int_of_digits :: "string \<Rightarrow> int" where
  "int_of_digits ds = foldl (\<lambda>n c. 10 * n + (of_char c - 48)) 0 ds"

text \<open>A field of \<open>lo\<close> to \<open>hi\<close> digits.\<close>

definition digit_field :: "nat \<Rightarrow> nat \<Rightarrow> string \<Rightarrow> bool" where
  "digit_field lo hi f \<longleftrightarrow> lo \<le> length f \<and> length f \<le> hi \<and> list_all isdigit f"

record datetime =
  year :: nat
  month :: nat
  day :: nat
  hour :: nat
  minute :: nat

definition days_in_month :: "nat \<Rightarrow> nat \<Rightarrow> nat" where
  "days_in_month y m =
     (if m = 2 then (if y mod 400 = 0 \<or> (y mod 4 = 0 \<and> y mod 100 \<noteq> 0) then 29 else 28)
      else if m \<in> {4, 6, 9, 11} then 30 else 31)"

text \<open>
  The format \<open>%d/%m/%Y %H:%M\<close> on a whole string: a day and a month of one or two
  digits, a year of four, at least one whitespace character, an hour and a minute of
  one or two digits, each in its range, and a day that exists in that month.
\<close>

definition strptime :: "string \<Rightarrow> datetime option" where
  "strptime s =
     (case split_on (\<lambda>c. c = CHR ''/'') s of
        [d, m, rest] \<Rightarrow>
          (let y = takeWhile isdigit rest;
               gap = takeWhile isspace (dropWhile isdigit rest);
               clock = dropWhile isspace (dropWhile isdigit rest)
           in case split_on (\<lambda>c. c = CHR '':'') clock of
                [h, mi] \<Rightarrow>
                  if digit_field 1 2 d \<and> digit_field 1 2 m \<and> digit_field 4 4 y \<and> gap \<noteq> [] \<and>
                     digit_field 1 2 h \<and> digit_field 1 2 mi \<and>
                     1 \<le> nat_of_digits m \<and> nat_of_digits m \<le> 12 \<and>
                     1 \<le> nat_of_digits y \<and>
                     1 \<le> nat_of_digits d \<and>
                     nat_of_digits d \<le> days_in_month (nat_of_digits y) (nat_of_digits m) \<and>
                     nat_of_digits h \<le> 23 \<and> nat_of_digits mi \<le> 59
                  then Some \<lparr>year = nat_of_digits y, month = nat_of_digits m,
                    day = nat_of_digits d, hour = nat_of_digits h, minute = nat_of_digits mi\<rparr>
                  else None
              | _ \<Rightarrow> None)
      | _ \<Rightarrow> None)"

text \<open>
  A decimal literal: an optional sign, digits, and optionally a point and more digits,
  with at least one digit in all. The value is the exact decimal.
\<close>

definition read_decimal :: "string \<Rightarrow> rat option" where
  "read_decimal s =
     (let negative = (s \<noteq> [] \<and> hd s = CHR ''-'');
          body = (if s \<noteq> [] \<and> hd s \<in> {CHR ''-'', CHR ''+''} then tl s else s);
          ip = takeWhile isdigit body;
          r = dropWhile isdigit body
      in if (r = [] \<or> hd r = CHR ''.'') \<and> list_all isdigit (tl r) \<and> ip @ tl r \<noteq> []
         then Some ((if negative then - 1 else 1) * of_int (int_of_digits (ip @ tl r))
                / 10 ^ length (tl r))
         else None)"

text \<open>
  The columns without a common dtype: an integer literal of \<open>2 ^ 63\<close> or more (it needs
  the unsigned 64-bit type) together with a negative integer literal or a missing
  value.
\<close>

definition integer_literal :: "string \<Rightarrow> bool" where
  "integer_literal s \<longleftrightarrow>
     (let body = (if s \<noteq> [] \<and> hd s \<in> {CHR ''-'', CHR ''+''} then tl s else s)
      in body \<noteq> [] \<and> list_all isdigit body)"

definition needs_uint64 :: "string option \<Rightarrow> bool" where
  "needs_uint64 t =
     (case t of
        None \<Rightarrow> False
      | Some s \<Rightarrow> integer_literal s \<and>
          (case read_decimal s of Some v \<Rightarrow> 2 ^ 63 \<le> v | None \<Rightarrow> False))"

definition negative_or_missing :: "string option \<Rightarrow> bool" where
  "negative_or_missing t =
     (case t of
        None \<Rightarrow> True
      | Some s \<Rightarrow> integer_literal s \<and>
          (case read_decimal s of Some v \<Rightarrow> v < 0 | None \<Rightarrow> False))"

definition uint64_conflict :: "string option list \<Rightarrow> bool" where
  "uint64_conflict tokens \<longleftrightarrow> list_ex needs_uint64 tokens \<and> list_ex negative_or_missing tokens"

text \<open>
  The reference reader of numbers: decimal literals, the conflict above, and values
  kept exact (the rounding of floats is not part of it).
\<close>

definition str_to_number :: "rat numeric_reader" where
  "str_to_number =
     \<lparr>read_token = read_decimal, dtype_conflict = uint64_conflict, dtype_cast = (\<lambda>tokens n. n)\<rparr>"

subsection \<open>Views of the loops used in the statements\<close>

text \<open>
  The blocks that \<open>process_blocks\<close> hands to \<open>create_dataframe\<close>, in order: the pairs
  \<open>(current_block_name, current_block)\<close> with which source lines 62 and 72 are
  reached. It is the loop of \<open>process_lines\<close> without the tables; lemma
  \<open>process_lines_emitted\<close> below relates the two.
\<close>

definition pending_block :: "string option \<Rightarrow> string list \<Rightarrow> (string \<times> string list) list" where
  "pending_block current_block_name current_block =
     (case current_block_name of
        None \<Rightarrow> []
      | Some name \<Rightarrow> if name \<noteq> [] \<and> current_block \<noteq> [] then [(name, current_block)] else [])"

fun emitted_blocks :: "string option \<Rightarrow> string list \<Rightarrow> string list \<Rightarrow> (string \<times> string list) list" where
  "emitted_blocks current_block_name current_block [] =
     pending_block current_block_name current_block"
| "emitted_blocks current_block_name current_block (raw # lines) =
     (let line = strip raw
      in if line = [] then emitted_blocks current_block_name current_block lines
         else if is_header_line line then
           pending_block current_block_name current_block @
           emitted_blocks (Some (extract_block_name line)) [] lines
         else emitted_blocks current_block_name (current_block @ [line]) lines)"

text \<open>Storing the tables of a list of blocks one after the other, up to the first exception.\<close>

fun store_all :: "(string \<Rightarrow> 't option) \<Rightarrow> 'n numeric_reader \<Rightarrow> ('t, 'n) parser \<Rightarrow>
    (string \<times> string list) list \<Rightarrow> error + ('t, 'n) parser" where
  "store_all strp num p [] = Inr p"
| "store_all strp num p ((name, block) # bs) =
     (case create_dataframe strp num block of
        Inl e \<Rightarrow> Inl e
      | Inr (df, out) \<Rightarrow>
          store_all strp num
            (p\<lparr>blocks := dict_set (blocks p) name df, printed := printed p @ out\<rparr>) bs)"

text \<open>Every row has one cell per label.\<close>

definition rectangular :: "('t, 'n) dataframe \<Rightarrow> bool" where
  "rectangular df \<longleftrightarrow> (\<forall>r \<in> set (rows df). length r = length (columns df))"

text \<open>The lines of the end-to-end scenario of the specification, as \<open>readlines\<close> returns them.\<close>

definition scenario_lines :: "string list" where
  "scenario_lines =
     [''**** Glucose_concentration ****'' @ [CHR 0x0A],
      ''Time (dd/mm/yyyy hh:mm)'' @ [CHR 0x09] @ ''conc (mmol/L)'' @ [CHR 0x0A],
      ''01/01/2024 08:00'' @ [CHR 0x09] @ ''5.5'' @ [CHR 0x0A],
      ''01/01/2024 08:05'' @ [CHR 0x09] @ ''-'' @ [CHR 0x0A],
      ''**** Meal ****'' @ [CHR 0x0A],
      ''Time'' @ [CHR 0x09] @ ''CHO'' @ [CHR 0x0A],
      ''01/01/2024 08:10'' @ [CHR 0x09] @ ''30'' @ [CHR 0x0A]]"

text \<open>
  What \<open>process_blocks\<close> appends to \<open>current_block\<close>: a stripped line that is not
  empty and holds no asterisk.
\<close>

definition body_line :: "string \<Rightarrow> bool" where
  "body_line l \<longleftrightarrow> l \<noteq> [] \<and> \<not> isspace (hd l) \<and> \<not> is_header_line l"

text \<open>
  The table of a block when \<open>create_dataframe\<close> returns one, and a list of
  assignments \<open>d[k] = v\<close> carried out in order.
\<close>

definition table_of :: "(string \<Rightarrow> 't option) \<Rightarrow> 'n numeric_reader \<Rightarrow> string list \<Rightarrow> ('t, 'n) dataframe" where
  "table_of strp num block =
     (case create_dataframe strp num block of Inr (df, out) \<Rightarrow> df | Inl e \<Rightarrow> empty_dataframe)"

fun dict_set_all :: "('k \<times> 'v) list \<Rightarrow> ('k \<times> 'v) list \<Rightarrow> ('k \<times> 'v) list" where
  "dict_set_all d [] = d"
| "dict_set_all d ((k, v) # kvs) = dict_set_all (dict_set d k v) kvs"

text \<open>
  A file in which a line that holds both an asterisk and the hint \<open>(min)\<close> follows
  the rows of a block.
\<close>

definition marked_hint_lines :: "string list" where
  "marked_hint_lines =
     [''*** Meal ***'', ''CHO'', ''30'', ''Rate* (min)'', ''CHO'', ''7'']"

text \<open>
  A file with a header of asterisks only, and a file with two headers in a row and a
  name that comes twice.
\<close>

definition unnamed_block_lines :: "string list" where
  "unnamed_block_lines = [''****'', ''CHO'', ''5'', ''*** Meal ***'', ''CHO'', ''30'']"

definition repeated_name_lines :: "string list" where
  "repeated_name_lines = [''* A *'', ''* B *'', ''x'', ''1'', ''* B *'', ''x'', ''2'']"

text \<open>
  Readings of one raw token, used to state what a cell of a table holds: the token
  with the hyphen as the missing value, the token as a number in the dtype of its
  column where it parses, and the token as a timestamp where it parses.
\<close>

definition text_cell :: "string \<Rightarrow> ('t, 'n) cell" where
  "text_cell s = (if s = ''-'' then NA else Text s)"

text \<open>The tokens of a column as \<open>pd.to_numeric\<close> receives them: the hyphen is missing.\<close>

definition column_tokens :: "string list \<Rightarrow> string option list" where
  "column_tokens col = map (\<lambda>s. if s = ''-'' then None else Some s) col"

definition number_cell :: "'n numeric_reader \<Rightarrow> string list \<Rightarrow> string \<Rightarrow> ('t, 'n) cell" where
  "number_cell num col s =
     (if s = ''-'' then NA
      else case read_token num s of
          Some n \<Rightarrow> Num (dtype_cast num (column_tokens col) n)
        | None \<Rightarrow> Text s)"

text \<open>Every token of a column reads as a number and the column has a common dtype.\<close>

definition converts :: "'n numeric_reader \<Rightarrow> string list \<Rightarrow> bool" where
  "converts num col \<longleftrightarrow>
     list_all (\<lambda>s. s = ''-'' \<or> read_token num s \<noteq> None) col \<and>
     \<not> dtype_conflict num (column_tokens col)"

definition timestamp_cell :: "(string \<Rightarrow> 't option) \<Rightarrow> string \<Rightarrow> ('t, 'n) cell" where
  "timestamp_cell strp s = (case strp s of Some t \<Rightarrow> Timestamp t | None \<Rightarrow> Text s)"

text \<open>The raw tokens of column \<open>j\<close>, top to bottom.\<close>

definition raw_column :: "nat \<Rightarrow> string list list \<Rightarrow> string list" where
  "raw_column j data = map (\<lambda>r. r ! j) data"

text \<open>The two lines that the handler of \<open>ValueError\<close> prints.\<close>

definition time_warning :: "message list" where
  "time_warning = [Error_converting_time_values, Time_column_left_as_string]"

text \<open>Fields joined by tabs, to write data lines down.\<close>

fun tsv :: "string list \<Rightarrow> string" where
  "tsv [] = []"
| "tsv [f] = f"
| "tsv (f # g # fs) = f @ CHR 0x09 # tsv (g # fs)"


text \<open>
  Blocks for the conversions: a numeric column with a hyphen, one with a token that is
  no number, one with an integer beyond the signed 64-bit range next to a negative
  one, a \<open>Time\<close> column with a hyphen, one that parses and one that does not, and
  two schema lines with a repeated name.
\<close>

definition numeric_block :: "string list" where
  "numeric_block = [''A'', ''1'', ''-'', ''2.5'']"

definition mixed_block :: "string list" where
  "mixed_block = [''A'', ''1'', ''x'']"

definition unsigned_block :: "string list" where
  "unsigned_block = [''A'', ''9223372036854775808'', ''-1'']"

definition hyphen_time_block :: "string list" where
  "hyphen_time_block = [''Time x'', tsv [''-'', ''1'']]"

definition good_time_block :: "string list" where
  "good_time_block =
     [''Time CHO'', tsv [''01/01/2024 08:00'', ''30''], tsv [''02/01/2024 09:30'', ''-'']]"

definition bad_time_block :: "string list" where
  "bad_time_block =
     [''Time CHO'', tsv [''01/01/2024 08:00'', ''30''], tsv [''not-a-date'', ''5'']]"

definition twice_time_block :: "string list" where
  "twice_time_block = [''Time Time'', tsv [''01/01/2024 08:00'', ''02/01/2024 09:30'']]"

definition twice_label_block :: "string list" where
  "twice_label_block = [''Time A A'', tsv [''not-a-date'', ''1'', ''2'']]"

section \<open>Properties\<close>

subsection \<open>The loop of \<open>create_dataframe\<close>\<close>

lemma collect_Some:
  "collect (Some cs) data ls =
     (Some cs, data @ filter (\<lambda>v. v \<noteq> [] \<and> length v = length cs)
        (map parse_data_line (filter (\<lambda>l. \<not> is_format_line l) ls)))"
  by (induction ls arbitrary: data) (simp_all add: Let_def)

lemma collect_None:
  "collect None data ls =
     (case filter (\<lambda>l. \<not> is_format_line l) ls of
        [] \<Rightarrow> (None, data)
      | l # rest \<Rightarrow> (Some (parse_columns l),
          data @ filter (\<lambda>v. v \<noteq> [] \<and> length v = length (parse_columns l))
            (map parse_data_line rest)))"
proof (induction ls)
  case Nil
  show ?case by simp
next
  case (Cons l ls)
  show ?case
  proof (cases "is_format_line l")
    case True
    with Cons show ?thesis by simp
  next
    case False
    then show ?thesis by (simp add: collect_Some)
  qed
qed

lemma collect_no_schema_iff:
  "fst (collect None [] ls) = None \<longleftrightarrow> list_all is_format_line ls"
proof -
  have "filter (\<lambda>l. \<not> is_format_line l) ls = [] \<longleftrightarrow> list_all is_format_line ls"
    by (simp add: filter_empty_conv list_all_iff)
  then show ?thesis
    by (cases "filter (\<lambda>l. \<not> is_format_line l) ls") (simp_all add: collect_None)
qed

lemma create_dataframe_no_table:
  assumes "fst (collect None [] ls) = None \<or> fst (collect None [] ls) = Some [] \<or>
    snd (collect None [] ls) = []"
  shows "create_dataframe strp num ls = Inr (empty_dataframe, [])"
  using assms by (auto simp: create_dataframe_def split: prod.splits option.splits)

lemma get_block_absent:
  "block_name \<notin> set (get_block_names p) \<Longrightarrow> get_block p block_name = empty_dataframe"
  by (auto simp: get_block_def get_block_names_def map_of_eq_None_iff [symmetric]
      simp del: map_of_eq_None_iff split: option.splits)

subsection \<open>Empty tables\<close>

text \<open>
  C7. A block all of whose lines are format lines (no schema line), a block whose
  schema line yields no column, and a block with no accepted row each give the empty
  table, without message and without exception, and \<open>process_blocks\<close> stores that
  table and goes on. \<open>get_block\<close> returns the empty table for a name that is not a
  key of the result.
\<close>

theorem empty_table_terminal_states:
  "(list_all is_format_line block_lines \<or>
      fst (collect None [] block_lines) = Some [] \<or>
      snd (collect None [] block_lines) = [] \<longrightarrow>
      create_dataframe strp num block_lines = Inr (empty_dataframe, []) \<and>
      store_block strp num p (Some name) block_lines =
        Inr (if name \<noteq> [] \<and> block_lines \<noteq> []
             then p\<lparr>blocks := dict_set (blocks p) name empty_dataframe\<rparr> else p)) \<and>
   (block_name \<notin> set (get_block_names p) \<longrightarrow> get_block p block_name = empty_dataframe)"
proof -
  have "create_dataframe strp num block_lines = Inr (empty_dataframe, [])"
    if "list_all is_format_line block_lines \<or>
      fst (collect None [] block_lines) = Some [] \<or> snd (collect None [] block_lines) = []"
    using that create_dataframe_no_table [of block_lines strp num]
    by (simp add: collect_no_schema_iff)
  then show ?thesis
    by (simp add: store_block_def get_block_absent)
qed

theorem empty_table_terminal_states_witness:
  "list_all is_format_line [''(min)''] \<and>
   create_dataframe strptime str_to_number [''(min)''] = Inr (empty_dataframe, []) \<and>
   store_block strptime str_to_number new_parser (Some ''Meal'') [''(min)''] =
     Inr \<lparr>blocks = [(''Meal'', empty_dataframe)], printed = []\<rparr> \<and>
   ''Meal'' \<notin> set (get_block_names (new_parser :: (datetime, rat) parser)) \<and>
   get_block (new_parser :: (datetime, rat) parser) ''Meal'' = empty_dataframe"
  using empty_table_terminal_states [of "[''(min)'']" strptime str_to_number
      "new_parser :: (datetime, rat) parser" "''Meal''" "''Meal''"]
  by (simp add: is_format_line_def new_parser_def get_block_names_def)

subsection \<open>Strings and the segmentation loop\<close>

lemma contains_single: "contains [x] s \<longleftrightarrow> x \<in> set s"
  by (induction s) auto

lemma is_header_line_iff: "is_header_line line \<longleftrightarrow> CHR ''*'' \<in> set line"
  by (simp add: is_header_line_def contains_single)

lemma set_dropWhile_keep: "\<not> P x \<Longrightarrow> x \<in> set (dropWhile P xs) \<longleftrightarrow> x \<in> set xs"
  by (induction xs) auto

lemma star_in_strip: "CHR ''*'' \<in> set (strip s) \<longleftrightarrow> CHR ''*'' \<in> set s"
  by (simp add: strip_def set_dropWhile_keep isspace_def)

lemma is_header_line_strip: "is_header_line (strip raw) = is_header_line raw"
  by (simp add: is_header_line_iff star_in_strip)

lemma store_block_pending:
  "store_block strp num p name block = store_all strp num p (pending_block name block)"
  by (simp add: store_block_def pending_block_def split: option.splits sum.splits prod.splits)

lemma store_all_append:
  "store_all strp num p (xs @ ys) =
     (case store_all strp num p xs of Inl e \<Rightarrow> Inl e | Inr p' \<Rightarrow> store_all strp num p' ys)"
  by (induction xs arbitrary: p) (auto split: sum.splits prod.splits)

lemma process_lines_emitted:
  "process_lines strp num p name block lines =
     store_all strp num p (emitted_blocks name block lines)"
proof (induction lines arbitrary: p name block)
  case Nil
  show ?case by (simp add: store_block_pending)
next
  case (Cons raw lines)
  show ?case
    by (simp add: Let_def Cons store_all_append store_block_pending split: sum.splits)
qed

lemma process_blocks_emitted:
  "process_blocks strp num p lines = store_all strp num p (emitted_blocks None [] lines)"
  by (simp add: process_blocks_def process_lines_emitted pending_block_def)


lemma rev_dropWhile_rev_take: "\<exists>n. rev (dropWhile P (rev xs)) = take n xs"
proof -
  have "rev (dropWhile P (rev xs)) = rev (drop (length (takeWhile P (rev xs))) (rev xs))"
    by (simp add: dropWhile_eq_drop)
  also have "\<dots> = take (length xs - length (takeWhile P (rev xs))) xs"
    by (simp add: rev_drop)
  finally show ?thesis by blast
qed

lemma strip_hd: "strip s \<noteq> [] \<Longrightarrow> \<not> isspace (hd (strip s))"
proof -
  assume ne: "strip s \<noteq> []"
  obtain n where n: "strip s = take n (dropWhile isspace s)"
    unfolding strip_def using rev_dropWhile_rev_take by blast
  with ne have "n \<noteq> 0" "dropWhile isspace s \<noteq> []" by auto
  then have "hd (strip s) = hd (dropWhile isspace s)"
    by (simp add: n hd_take)
  moreover have "\<not> isspace (hd (dropWhile isspace s))"
    using \<open>dropWhile isspace s \<noteq> []\<close> by (rule hd_dropWhile)
  ultimately show ?thesis by simp
qed


lemma split_on_nonempty: "split_on p s \<noteq> []"
  by (induction s) (auto simp: Let_def)



lemma pending_block_props:
  assumes "(name, ls) \<in> set (pending_block current_name current_block)"
  shows "name \<noteq> [] \<and> ls = current_block \<and> ls \<noteq> [] \<and> current_name = Some name"
  using assms by (auto simp: pending_block_def split: option.splits if_splits)

lemma emitted_blocks_props:
  assumes "(name, ls) \<in> set (emitted_blocks current_name current_block lines)"
    and "list_all body_line current_block"
  shows "name \<noteq> [] \<and> ls \<noteq> [] \<and> list_all body_line ls"
  using assms
proof (induction lines arbitrary: current_name current_block)
  case Nil
  then show ?case by (auto dest: pending_block_props)
next
  case (Cons raw lines)
  show ?case
  proof (cases "strip raw = []")
    case True
    with Cons show ?thesis by simp
  next
    case ne: False
    show ?thesis
    proof (cases "is_header_line (strip raw)")
      case True
      with ne Cons.prems have "(name, ls) \<in> set (pending_block current_name current_block) \<or>
          (name, ls) \<in> set (emitted_blocks (Some (extract_block_name (strip raw))) [] lines)"
        by (simp add: Let_def)
      then show ?thesis
      proof
        assume "(name, ls) \<in> set (pending_block current_name current_block)"
        with Cons.prems(2) show ?thesis by (auto dest: pending_block_props)
      next
        assume "(name, ls) \<in> set (emitted_blocks (Some (extract_block_name (strip raw))) [] lines)"
        then show ?thesis by (rule Cons.IH) simp
      qed
    next
      case False
      with ne Cons.prems(1)
      have in_rest: "(name, ls) \<in> set (emitted_blocks current_name (current_block @ [strip raw]) lines)"
        by (simp add: Let_def)
      have "body_line (strip raw)"
        using ne False strip_hd [of raw] by (simp add: body_line_def)
      with Cons.prems(2) have "list_all body_line (current_block @ [strip raw])" by simp
      with in_rest show ?thesis by (rule Cons.IH)
    qed
  qed
qed

lemma length_pending_block: "length (pending_block name block) \<le> (case name of None \<Rightarrow> 0 | Some _ \<Rightarrow> 1)"
  by (simp add: pending_block_def split: option.splits)

lemma length_emitted_blocks:
  "length (emitted_blocks name block lines) \<le>
     length (filter is_header_line lines) + (case name of None \<Rightarrow> 0 | Some _ \<Rightarrow> 1)"
proof (induction lines arbitrary: name block)
  case Nil
  show ?case using length_pending_block [of name block] by simp
next
  case (Cons raw lines)
  show ?case
  proof (cases "strip raw = []")
    case True
    then show ?thesis using Cons [of name block] by simp
  next
    case ne: False
    show ?thesis
    proof (cases "is_header_line raw")
      case True
      then show ?thesis
        using ne Cons [of "Some (extract_block_name (strip raw))" "[]"]
          length_pending_block [of name block]
        by (simp add: Let_def is_header_line_strip split: option.splits)
    next
      case False
      then show ?thesis
        using ne Cons [of name "block @ [strip raw]"]
        by (simp add: Let_def is_header_line_strip)
    qed
  qed
qed

subsection \<open>The dictionary of blocks\<close>

lemma map_of_dict_set:
  "map_of (dict_set d k v) k' = (if k' = k then Some v else map_of d k')"
  by (induction d) auto

lemma keys_dict_set:
  "map fst (dict_set d k v) = (if k \<in> fst ` set d then map fst d else map fst d @ [k])"
  by (induction d) (force simp: image_iff)+

lemma key_set_dict_set: "fst ` set (dict_set d k v) = insert k (fst ` set d)"
proof -
  have "set (map fst (dict_set d k v)) = insert k (set (map fst d))"
    unfolding keys_dict_set by auto
  then show ?thesis by simp
qed

lemma length_dict_set: "length (dict_set d k v) \<le> Suc (length d)"
  by (induction d) auto

lemma distinct_dict_set: "distinct (map fst d) \<Longrightarrow> distinct (map fst (dict_set d k v))"
  by (simp add: keys_dict_set)

lemma map_of_dict_set_all:
  "map_of (dict_set_all d kvs) k =
     (case map_of (rev kvs) k of Some v \<Rightarrow> Some v | None \<Rightarrow> map_of d k)"
proof (induction d kvs rule: dict_set_all.induct)
  case (1 d)
  show ?case by simp
next
  case (2 d k' v kvs)
  show ?case
    by (simp add: 2 map_of_dict_set map_add_def split: option.splits)
qed

lemma key_set_dict_set_all: "fst ` set (dict_set_all d kvs) = fst ` set d \<union> fst ` set kvs"
  by (induction d kvs rule: dict_set_all.induct) (auto simp: key_set_dict_set)

lemma keys_dict_set_all_present:
  "fst ` set kvs \<subseteq> fst ` set d \<Longrightarrow> map fst (dict_set_all d kvs) = map fst d"
proof (induction d kvs rule: dict_set_all.induct)
  case (1 d)
  show ?case by simp
next
  case (2 d k v kvs)
  then have k: "k \<in> fst ` set d" by auto
  then have keys: "map fst (dict_set d k v) = map fst d" by (simp add: keys_dict_set)
  from k have "fst ` set (dict_set d k v) = fst ` set d"
    by (auto simp: key_set_dict_set)
  with 2 keys show ?case by auto
qed

lemma distinct_dict_set_all:
  "distinct (map fst d) \<Longrightarrow> distinct (map fst (dict_set_all d kvs))"
  by (induction d kvs rule: dict_set_all.induct) (simp_all add: distinct_dict_set)

lemma length_dict_set_all: "length (dict_set_all d kvs) \<le> length d + length kvs"
proof (induction d kvs rule: dict_set_all.induct)
  case (1 d)
  show ?case by simp
next
  case (2 d k v kvs)
  then show ?case using length_dict_set [of d k v] by simp
qed

lemma alist_eqI:
  assumes "distinct (map fst xs)" and "map fst xs = map fst ys"
    and "\<And>k. map_of xs k = map_of ys k"
  shows "xs = ys"
  using assms
proof (induction xs arbitrary: ys)
  case Nil
  then show ?case by simp
next
  case (Cons x xs)
  then obtain y ys' where ys: "ys = y # ys'" by (cases ys) auto
  with Cons.prems have fst: "fst x = fst y" and keys: "map fst xs = map fst ys'" by auto
  from Cons.prems(3) [of "fst x"] fst have xy: "x = y"
    by (cases x, cases y) (simp add: ys)
  have "map_of xs k = map_of ys' k" for k
  proof (cases "k = fst x")
    case True
    with Cons.prems(1) have "k \<notin> fst ` set xs" by auto
    moreover from this keys have "k \<notin> fst ` set ys'" by (metis list.set_map)
    ultimately have "map_of xs k = None" "map_of ys' k = None"
      by (simp_all only: map_of_eq_None_iff not_False_eq_True)
    then show ?thesis by simp
  next
    case False
    with Cons.prems(3) [of k] xy show ?thesis
      by (cases x) (simp add: ys)
  qed
  with Cons.IH [of ys'] Cons.prems(1) keys xy ys show ?case by simp
qed

lemma dict_set_all_twice:
  assumes "distinct (map fst d0)"
  shows "dict_set_all (dict_set_all d0 kvs) kvs = dict_set_all d0 kvs"
proof (rule alist_eqI)
  let ?d = "dict_set_all d0 kvs"
  have sub: "fst ` set kvs \<subseteq> fst ` set ?d"
    by (simp add: key_set_dict_set_all)
  show "distinct (map fst (dict_set_all ?d kvs))"
    using assms by (simp add: distinct_dict_set_all)
  show "map fst (dict_set_all ?d kvs) = map fst ?d"
    using sub by (rule keys_dict_set_all_present)
  show "map_of (dict_set_all ?d kvs) k = map_of ?d k" for k
    by (simp add: map_of_dict_set_all split: option.splits)
qed


subsection \<open>Storing the tables\<close>

lemma store_all_blocks:
  "store_all strp num p segs = Inr p' \<Longrightarrow>
     blocks p' = dict_set_all (blocks p) (map (\<lambda>(name, block). (name, table_of strp num block)) segs)"
proof (induction segs arbitrary: p)
  case Nil
  then show ?case by simp
next
  case (Cons seg segs)
  obtain name block where seg: "seg = (name, block)" by (cases seg)
  from Cons.prems obtain df out where
    df: "create_dataframe strp num block = Inr (df, out)" and
    rest: "store_all strp num (p\<lparr>blocks := dict_set (blocks p) name df,
      printed := printed p @ out\<rparr>) segs = Inr p'"
    by (auto simp: seg split: sum.splits)
  from Cons.IH [OF rest] df show ?case
    by (simp add: seg table_of_def)
qed

lemma store_all_Inr_iff:
  "(\<exists>p'. store_all strp num p segs = Inr p') \<longleftrightarrow>
     (\<forall>seg \<in> set segs. \<exists>r. create_dataframe strp num (snd seg) = Inr r)"
proof (induction segs arbitrary: p)
  case Nil
  show ?case by simp
next
  case (Cons seg segs)
  obtain name block where seg: "seg = (name, block)" by (cases seg)
  show ?case
  proof (cases "create_dataframe strp num block")
    case (Inl e)
    then show ?thesis by (simp add: seg)
  next
    case (Inr r)
    obtain df out where r: "r = (df, out)" by (cases r)
    show ?thesis
      using Cons [of "p\<lparr>blocks := dict_set (blocks p) name df, printed := printed p @ out\<rparr>"]
      by (simp add: seg Inr r)
  qed
qed

lemma process_lines_append_cong:
  assumes "\<And>p name block. process_lines strp num p name block xs =
    process_lines strp num p name block ys"
  shows "process_lines strp num p name block (pre @ xs) =
    process_lines strp num p name block (pre @ ys)"
proof (induction pre arbitrary: p name block)
  case Nil
  show ?case by (simp add: assms)
next
  case (Cons raw pre)
  show ?case by (simp add: Let_def Cons split: sum.splits)
qed

lemma process_lines_no_header:
  "list_all (\<lambda>l. \<not> is_header_line l) lines \<Longrightarrow>
     process_lines strp num p None block lines = Inr p"
  by (induction lines arbitrary: block)
    (simp_all add: store_block_def Let_def is_header_line_strip)

lemma process_lines_unnamed:
  "process_lines strp num p (Some []) block lines = process_lines strp num p (Some []) [] lines"
proof (induction lines arbitrary: block)
  case Nil
  show ?case by (simp add: store_block_def)
next
  case (Cons raw lines)
  have "process_lines strp num p (Some []) (block @ [strip raw]) lines =
      process_lines strp num p (Some []) [strip raw] lines"
    using Cons [of "block @ [strip raw]"] Cons [of "[strip raw]"] by simp
  then show ?case
    by (simp add: Let_def store_block_def Cons [of block])
qed

lemma extract_block_name_empty_iff:
  "extract_block_name line = [] \<longleftrightarrow> (\<forall>c \<in> set line. c = CHR ''*'' \<or> isspace c)"
proof -
  have "(\<forall>x \<in> set (dropWhile isspace s). isspace x) \<longleftrightarrow> (\<forall>c \<in> set s. isspace c)" for s
    by (induction s) auto
  then have "strip s = [] \<longleftrightarrow> (\<forall>c \<in> set s. isspace c)" for s
    by (simp add: strip_def dropWhile_eq_Nil_conv)
  then show ?thesis
    by (auto simp: extract_block_name_def)
qed

subsection \<open>Headers before format lines\<close>

text \<open>
  C10. A line that holds an asterisk is a header whatever else it holds: whether or not
  it is also a format line, \<open>process_blocks\<close> stores the pending block and starts a
  new one named after it. \<open>create_dataframe\<close>, which alone tests for format lines,
  receives only the emitted blocks, and no line of an emitted block holds an asterisk.
\<close>

theorem header_before_format_line:
  "(is_header_line raw \<longrightarrow>
      process_lines strp num p name block (raw # rest) =
        (case store_block strp num p name block of
           Inl e \<Rightarrow> Inl e
         | Inr p' \<Rightarrow> process_lines strp num p' (Some (extract_block_name (strip raw))) [] rest) \<and>
      emitted_blocks name block (raw # rest) =
        pending_block name block @
        emitted_blocks (Some (extract_block_name (strip raw))) [] rest) \<and>
   process_blocks strp num p lines = store_all strp num p (emitted_blocks None [] lines) \<and>
   (\<forall>b \<in> set (emitted_blocks None [] lines). \<forall>l \<in> set (snd b). \<not> is_header_line l)"
proof -
  have "strip raw \<noteq> []" if "is_header_line raw"
    using that is_header_line_strip [of raw] by (auto simp: is_header_line_iff)
  moreover have "\<not> is_header_line l"
    if "b \<in> set (emitted_blocks None [] lines)" and "l \<in> set (snd b)" for b l
  proof -
    from that(1) have "list_all body_line (snd b)"
      using emitted_blocks_props [of "fst b" "snd b" None "[]" lines] by simp
    with that(2) show ?thesis by (simp add: list_all_iff body_line_def)
  qed
  ultimately show ?thesis
    by (simp add: Let_def is_header_line_strip process_blocks_emitted)
qed

theorem header_before_format_line_witness:
  "is_header_line ''Rate* (min)'' \<and> is_format_line ''Rate* (min)'' \<and>
   emitted_blocks (Some ''Meal'') [''CHO'', ''30''] [''Rate* (min)'', ''CHO'', ''7''] =
     [(''Meal'', [''CHO'', ''30'']), (''Rate (min)'', [''CHO'', ''7''])] \<and>
   process_blocks strptime str_to_number new_parser marked_hint_lines =
     Inr \<lparr>blocks = [(''Meal'', \<lparr>columns = [''CHO''], rows = [[Num 30]]\<rparr>),
                    (''Rate (min)'', \<lparr>columns = [''CHO''], rows = [[Num 7]]\<rparr>)],
          printed = []\<rparr> \<and>
   list_all (\<lambda>b. list_all (\<lambda>l. \<not> is_header_line l) (snd b))
     (emitted_blocks None [] marked_hint_lines)"
proof -
  have h: "is_header_line ''Rate* (min)''" by code_simp
  have f: "is_format_line ''Rate* (min)''" by code_simp
  have e: "emitted_blocks (Some ''Meal'') [''CHO'', ''30''] [''Rate* (min)'', ''CHO'', ''7''] =
      [(''Meal'', [''CHO'', ''30'']), (''Rate (min)'', [''CHO'', ''7''])]"
    by code_simp
  have r: "process_blocks strptime str_to_number new_parser marked_hint_lines =
      Inr \<lparr>blocks = [(''Meal'', \<lparr>columns = [''CHO''], rows = [[Num 30]]\<rparr>),
                     (''Rate (min)'', \<lparr>columns = [''CHO''], rows = [[Num 7]]\<rparr>)],
           printed = []\<rparr>"
    by code_simp
  show ?thesis
    using header_before_format_line [of "''Rate* (min)''" strptime str_to_number
        "new_parser :: (datetime, rat) parser" "Some ''Meal''" "[''CHO'', ''30'']"
        "[''CHO'', ''7'']" marked_hint_lines] h f e r
    by (simp add: list_all_iff)
qed

subsection \<open>Blocks without a name\<close>

lemma set_strip: "set (strip s) \<subseteq> set s"
proof -
  have "set (strip s) \<subseteq> set (dropWhile isspace s)"
    unfolding strip_def using set_dropWhileD [of _ isspace "rev (dropWhile isspace s)"] by auto
  then show ?thesis using set_dropWhileD [of _ isspace s] by auto
qed

lemma process_lines_unnamed_body:
  "list_all (\<lambda>l. \<not> is_header_line l) body \<Longrightarrow>
     process_lines strp num p (Some []) block (body @ rest) =
     process_lines strp num p (Some []) [] rest"
proof (induction body arbitrary: block)
  case Nil
  show ?case using process_lines_unnamed [of strp num p block rest] by simp
next
  case (Cons raw body)
  then show ?case by (simp add: Let_def is_header_line_strip)
qed

lemma process_blocks_keys:
  assumes "process_blocks strp num p lines = Inr p'"
  shows "set (get_block_names p') =
    set (get_block_names p) \<union> fst ` set (emitted_blocks None [] lines)"
proof -
  from assms have "blocks p' = dict_set_all (blocks p)
      (map (\<lambda>(name, block). (name, table_of strp num block)) (emitted_blocks None [] lines))"
    by (simp add: process_blocks_emitted store_all_blocks)
  then have "fst ` set (blocks p') = fst ` set (blocks p) \<union>
      fst ` set (map (\<lambda>(name, block). (name, table_of strp num block)) (emitted_blocks None [] lines))"
    by (simp only: key_set_dict_set_all)
  moreover have "fst ` set (map (\<lambda>(name, block). (name, f block)) segs) = fst ` set segs"
    for f :: "string list \<Rightarrow> ('a, 'b) dataframe" and segs :: "(string \<times> string list) list"
    by (force simp: image_iff)
  ultimately show ?thesis by (simp add: get_block_names_def)
qed

text \<open>
  C9. The name extracted from a line is empty exactly when the line holds nothing but
  asterisks and whitespace. After a header with an empty name the lines up to the next
  header change nothing: the file gives the same result with and without them. No
  result of \<open>process_blocks\<close> holds a block under the empty name, unless the parser
  held one before.
\<close>

theorem unnamed_block_discarded:
  "(extract_block_name line = [] \<longleftrightarrow> (\<forall>c \<in> set line. c = CHR ''*'' \<or> isspace c)) \<and>
   (is_header_line header \<and> extract_block_name (strip header) = [] \<and>
      list_all (\<lambda>l. \<not> is_header_line l) body \<longrightarrow>
      process_blocks strp num p (pre @ header # body @ rest) =
      process_blocks strp num p (pre @ header # rest)) \<and>
   (process_blocks strp num p lines = Inr p' \<and> [] \<notin> set (get_block_names p) \<longrightarrow>
      [] \<notin> set (get_block_names p'))"
proof -
  have discard: "process_blocks strp num p (pre @ header # body @ rest) =
      process_blocks strp num p (pre @ header # rest)"
    if h: "is_header_line header" and n: "extract_block_name (strip header) = []"
      and b: "list_all (\<lambda>l. \<not> is_header_line l) body"
  proof -
    have ne: "strip header \<noteq> []"
      using h is_header_line_strip [of header] by (auto simp: is_header_line_iff)
    have "process_lines strp num q name block (header # body @ rest) =
        process_lines strp num q name block (header # rest)" for q name block
      using ne h n process_lines_unnamed_body [OF b, of strp num _ "[]" rest]
      by (simp add: Let_def is_header_line_strip split: sum.splits)
    then have "process_lines strp num p None [] (pre @ header # body @ rest) =
        process_lines strp num p None [] (pre @ header # rest)"
      by (rule process_lines_append_cong)
    then show ?thesis by (simp add: process_blocks_def)
  qed
  have keys: "[] \<notin> set (get_block_names p')"
    if r: "process_blocks strp num p lines = Inr p'" and k: "[] \<notin> set (get_block_names p)"
  proof
    assume "[] \<in> set (get_block_names p')"
    with process_blocks_keys [OF r] k obtain ls where
      "([], ls) \<in> set (emitted_blocks None [] lines)" by auto
    from emitted_blocks_props [OF this] show False by simp
  qed
  from discard keys show ?thesis
    by (simp add: extract_block_name_empty_iff)
qed


theorem unnamed_block_discarded_witness:
  "extract_block_name ''****'' = [] \<and> is_header_line ''****'' \<and>
   list_all (\<lambda>l. \<not> is_header_line l) [''CHO'', ''5''] \<and>
   process_blocks strptime str_to_number new_parser unnamed_block_lines =
     process_blocks strptime str_to_number new_parser [''****'', ''*** Meal ***'', ''CHO'', ''30''] \<and>
   process_blocks strptime str_to_number new_parser unnamed_block_lines =
     Inr \<lparr>blocks = [(''Meal'', \<lparr>columns = [''CHO''], rows = [[Num 30]]\<rparr>)], printed = []\<rparr> \<and>
   [] \<notin> set (get_block_names \<lparr>blocks = [(''Meal'', \<lparr>columns = [''CHO''],
     rows = [[Num (30 :: rat) :: (datetime, rat) cell]]\<rparr>)], printed = []\<rparr>)"
proof -
  have n: "extract_block_name ''****'' = []" "extract_block_name (strip ''****'') = []"
    by code_simp+
  have h: "is_header_line ''****''" by code_simp
  have b: "list_all (\<lambda>l. \<not> is_header_line l) [''CHO'', ''5'']" by code_simp
  have r: "process_blocks strptime str_to_number new_parser unnamed_block_lines =
      Inr \<lparr>blocks = [(''Meal'', \<lparr>columns = [''CHO''], rows = [[Num 30]]\<rparr>)], printed = []\<rparr>"
    by code_simp
  have k: "[] \<notin> set (get_block_names (new_parser :: (datetime, rat) parser))"
    by (simp add: get_block_names_def new_parser_def)
  show ?thesis
    using unnamed_block_discarded [of "''****''" "''****''" "[''CHO'', ''5'']" strptime
        str_to_number new_parser "[]" "[''*** Meal ***'', ''CHO'', ''30'']" unnamed_block_lines
        "\<lparr>blocks = [(''Meal'', \<lparr>columns = [''CHO''], rows = [[Num 30]]\<rparr>)], printed = []\<rparr>"]
      n h b r k
    by (simp add: unnamed_block_lines_def)
qed

subsection \<open>Segmentation\<close>

lemma process_lines_blank:
  "list_all (\<lambda>l. strip l = []) blanks \<Longrightarrow>
     process_lines strp num p name block (blanks @ lines) =
     process_lines strp num p name block lines"
  by (induction blanks) simp_all

lemma map_of_dict_set_all_last:
  assumes "kvs = before @ (k, v) # after" and "k \<notin> fst ` set after"
  shows "map_of (dict_set_all d kvs) k = Some v"
proof -
  from assms(2) have "map_of (rev after) k = None"
    by (simp add: map_of_eq_None_iff)
  then show ?thesis
    by (simp add: map_of_dict_set_all assms(1) map_add_def)
qed

text \<open>
  C6. A run adds at most as many blocks as the input has header lines. Of two header
  lines with nothing but blank lines between them the first leaves no trace. An input
  without header lines leaves the parser as it was, so a new parser ends with no
  block. The names of the result are pairwise distinct, and the table found under a
  name is that of the last emitted block of that name.
\<close>

theorem segmentation_bound_and_last_wins:
  "(process_blocks strp num p lines = Inr p' \<longrightarrow>
      length (blocks p') \<le> length (blocks p) + length (filter is_header_line lines)) \<and>
   (is_header_line h1 \<and> is_header_line h2 \<and> list_all (\<lambda>l. strip l = []) blanks \<longrightarrow>
      process_blocks strp num p (pre @ h1 # blanks @ h2 # rest) =
      process_blocks strp num p (pre @ h2 # rest)) \<and>
   (list_all (\<lambda>l. \<not> is_header_line l) plain \<longrightarrow> process_blocks strp num p plain = Inr p) \<and>
   (process_blocks strp num p lines = Inr p' \<and> distinct (get_block_names p) \<longrightarrow>
      distinct (get_block_names p')) \<and>
   (process_blocks strp num p lines = Inr p' \<and>
      emitted_blocks None [] lines = before @ (name, block) # after \<and>
      name \<notin> fst ` set after \<longrightarrow>
      get_block p' name = table_of strp num block \<and>
      (\<exists>out. create_dataframe strp num block = Inr (table_of strp num block, out)))"
proof -
  let ?tables = "map (\<lambda>(name, block). (name, table_of strp num block))"
  have blocks: "blocks p' = dict_set_all (blocks p) (?tables (emitted_blocks None [] lines))"
    if "process_blocks strp num p lines = Inr p'"
    using that by (simp add: process_blocks_emitted store_all_blocks)
  have bound: "length (blocks p') \<le> length (blocks p) + length (filter is_header_line lines)"
    if r: "process_blocks strp num p lines = Inr p'"
  proof -
    have "length (blocks p') \<le> length (blocks p) + length (emitted_blocks None [] lines)"
      using length_dict_set_all [of "blocks p" "?tables (emitted_blocks None [] lines)"]
      by (simp add: blocks [OF r])
    with length_emitted_blocks [of None "[]" lines] show ?thesis by simp
  qed
  have collapse: "process_blocks strp num p (pre @ h1 # blanks @ h2 # rest) =
      process_blocks strp num p (pre @ h2 # rest)"
    if h1: "is_header_line h1" and h2: "is_header_line h2"
      and bl: "list_all (\<lambda>l. strip l = []) blanks"
  proof -
    have ne: "strip h1 \<noteq> []" "strip h2 \<noteq> []"
      using h1 h2 is_header_line_strip [of h1] is_header_line_strip [of h2]
      by (auto simp: is_header_line_iff)
    have "process_lines strp num q n b (h1 # blanks @ h2 # rest) =
        process_lines strp num q n b (h2 # rest)" for q n b
      using ne h1 h2 process_lines_blank [OF bl, of strp num _ _ "[]" "h2 # rest"]
      by (simp add: Let_def is_header_line_strip store_block_def split: sum.splits)
    then have "process_lines strp num p None [] (pre @ h1 # blanks @ h2 # rest) =
        process_lines strp num p None [] (pre @ h2 # rest)"
      by (rule process_lines_append_cong)
    then show ?thesis by (simp add: process_blocks_def)
  qed
  have none: "process_blocks strp num p plain = Inr p"
    if "list_all (\<lambda>l. \<not> is_header_line l) plain"
    using that by (simp add: process_blocks_def process_lines_no_header)
  have dist: "distinct (get_block_names p')"
    if r: "process_blocks strp num p lines = Inr p'" and d: "distinct (get_block_names p)"
    using d distinct_dict_set_all [of "blocks p" "?tables (emitted_blocks None [] lines)"]
    by (simp add: blocks [OF r] get_block_names_def)
  have last: "get_block p' name = table_of strp num block \<and>
      (\<exists>out. create_dataframe strp num block = Inr (table_of strp num block, out))"
    if r: "process_blocks strp num p lines = Inr p'"
      and e: "emitted_blocks None [] lines = before @ (name, block) # after"
      and a: "name \<notin> fst ` set after"
  proof -
    have "?tables (emitted_blocks None [] lines) =
        ?tables before @ (name, table_of strp num block) # ?tables after"
      by (simp add: e)
    moreover have "name \<notin> fst ` set (?tables after)"
      using a by (force simp: image_iff)
    ultimately have "map_of (blocks p') name = Some (table_of strp num block)"
      unfolding blocks [OF r] by (rule map_of_dict_set_all_last)
    then have g: "get_block p' name = table_of strp num block"
      by (simp add: get_block_def)
    from r have "\<exists>q. store_all strp num p (emitted_blocks None [] lines) = Inr q"
      by (simp add: process_blocks_emitted)
    then have "\<exists>res. create_dataframe strp num block = Inr res"
      unfolding store_all_Inr_iff by (simp add: e)
    then have "\<exists>out. create_dataframe strp num block = Inr (table_of strp num block, out)"
      by (auto simp: table_of_def)
    with g show ?thesis by simp
  qed
  from bound collapse none dist last show ?thesis by blast
qed


theorem segmentation_bound_and_last_wins_witness:
  "process_blocks strptime str_to_number new_parser repeated_name_lines =
     Inr \<lparr>blocks = [(''B'', \<lparr>columns = [''x''], rows = [[Num 2]]\<rparr>)], printed = []\<rparr> \<and>
   length (filter is_header_line repeated_name_lines) = 3 \<and>
   emitted_blocks None [] repeated_name_lines = [(''B'', [''x'', ''1'']), (''B'', [''x'', ''2''])] \<and>
   process_blocks strptime str_to_number new_parser repeated_name_lines =
     process_blocks strptime str_to_number new_parser (tl repeated_name_lines) \<and>
   process_blocks strptime str_to_number new_parser [''x'', ''1''] = Inr new_parser \<and>
   get_block \<lparr>blocks = [(''B'', \<lparr>columns = [''x''], rows = [[Num 2]]\<rparr>)], printed = []\<rparr> ''B'' =
     (\<lparr>columns = [''x''], rows = [[Num 2]]\<rparr> :: (datetime, rat) dataframe) \<and>
   table_of strptime str_to_number [''x'', ''2''] = \<lparr>columns = [''x''], rows = [[Num 2]]\<rparr>"
proof -
  let ?p = "\<lparr>blocks = [(''B'', \<lparr>columns = [''x''], rows = [[Num 2]]\<rparr>)], printed = []\<rparr>
    :: (datetime, rat) parser"
  have r: "process_blocks strptime str_to_number new_parser repeated_name_lines = Inr ?p"
    by code_simp
  have c: "length (filter is_header_line repeated_name_lines) = 3" by code_simp
  have e: "emitted_blocks None [] repeated_name_lines =
      [(''B'', [''x'', ''1''])] @ (''B'', [''x'', ''2'']) # []"
    by code_simp
  have h: "is_header_line ''* A *''" "is_header_line ''* B *''" by code_simp+
  have pl: "list_all (\<lambda>l. \<not> is_header_line l) [''x'', ''1'']" by code_simp
  have t: "table_of strptime str_to_number [''x'', ''2''] = \<lparr>columns = [''x''], rows = [[Num 2]]\<rparr>"
    by code_simp
  have d: "distinct (get_block_names (new_parser :: (datetime, rat) parser))"
    by (simp add: get_block_names_def new_parser_def)
  show ?thesis
    using segmentation_bound_and_last_wins [of strptime str_to_number new_parser
        repeated_name_lines ?p "''* A *''" "''* B *''" "[]" "[]"
        "[''x'', ''1'', ''* B *'', ''x'', ''2'']" "[''x'', ''1'']"
        "[(''B'', [''x'', ''1''])]" "''B''" "[''x'', ''2'']" "[]"]
      r c e h pl t d
    by (simp add: repeated_name_lines_def)
qed

subsection \<open>Running twice\<close>

text \<open>
  C8. Two runs of \<open>process_blocks\<close> over the same lines, each on a new parser, return
  the same parser state. A second run on the parser that the first run left behind
  succeeds as well and leaves the dictionary as it was: the same names in the same
  order with the same tables.
\<close>

theorem process_blocks_twice:
  "(process_blocks strp num new_parser lines = Inr p1 \<and>
      process_blocks strp num new_parser lines = Inr p2 \<longrightarrow>
      blocks p1 = blocks p2 \<and> get_block_names p1 = get_block_names p2) \<and>
   (process_blocks strp num p lines = Inr p' \<and> distinct (get_block_names p) \<longrightarrow>
      (\<exists>p''. process_blocks strp num p' lines = Inr p'' \<and> blocks p'' = blocks p' \<and>
         get_block_names p'' = get_block_names p'))"
proof -
  let ?segs = "emitted_blocks None [] lines"
  let ?kvs = "map (\<lambda>(name, block). (name, table_of strp num block)) ?segs"
  have again: "\<exists>p''. process_blocks strp num p' lines = Inr p'' \<and> blocks p'' = blocks p' \<and>
      get_block_names p'' = get_block_names p'"
    if r: "process_blocks strp num p lines = Inr p'" and d: "distinct (get_block_names p)"
  proof -
    from r have first: "store_all strp num p ?segs = Inr p'"
      by (simp add: process_blocks_emitted)
    then have "\<exists>q. store_all strp num p ?segs = Inr q" by blast
    then have "\<exists>q. store_all strp num p' ?segs = Inr q"
      unfolding store_all_Inr_iff .
    then obtain p'' where second: "store_all strp num p' ?segs = Inr p''" by blast
    have "blocks p'' = dict_set_all (dict_set_all (blocks p) ?kvs) ?kvs"
      using store_all_blocks [OF first] store_all_blocks [OF second] by simp
    also have "\<dots> = dict_set_all (blocks p) ?kvs"
      using d by (simp add: dict_set_all_twice get_block_names_def)
    also have "\<dots> = blocks p'"
      using store_all_blocks [OF first] by simp
    finally have "blocks p'' = blocks p'" .
    with second show ?thesis
      by (auto simp: process_blocks_emitted get_block_names_def)
  qed
  have "p1 = p2"
    if "process_blocks strp num new_parser lines = Inr p1"
      and "process_blocks strp num new_parser lines = Inr p2"
    using that by simp
  with again show ?thesis by blast
qed

theorem process_blocks_twice_witness:
  "process_blocks strptime str_to_number new_parser repeated_name_lines =
     Inr \<lparr>blocks = [(''B'', \<lparr>columns = [''x''], rows = [[Num 2]]\<rparr>)], printed = []\<rparr> \<and>
   distinct (get_block_names (new_parser :: (datetime, rat) parser)) \<and>
   process_blocks strptime str_to_number
     \<lparr>blocks = [(''B'', \<lparr>columns = [''x''], rows = [[Num 2]]\<rparr>)], printed = []\<rparr>
     repeated_name_lines =
     Inr \<lparr>blocks = [(''B'', \<lparr>columns = [''x''], rows = [[Num 2]]\<rparr>)], printed = []\<rparr>"
proof -
  let ?p = "\<lparr>blocks = [(''B'', \<lparr>columns = [''x''], rows = [[Num 2]]\<rparr>)], printed = []\<rparr>
    :: (datetime, rat) parser"
  have r: "process_blocks strptime str_to_number new_parser repeated_name_lines = Inr ?p"
    by code_simp
  have r2: "process_blocks strptime str_to_number ?p repeated_name_lines = Inr ?p"
    by code_simp
  have d: "distinct (get_block_names (new_parser :: (datetime, rat) parser))"
    by (simp add: get_block_names_def new_parser_def)
  show ?thesis
    using process_blocks_twice [of strptime str_to_number repeated_name_lines ?p ?p new_parser ?p]
      r r2 d
    by simp
qed

subsection \<open>Columns of a table\<close>

lemma those_map_Some: "those (map Some ys) = Some ys"
  by (induction ys) simp_all

lemma those_eq_Some_iff: "those xs = Some ys \<longleftrightarrow> xs = map Some ys"
proof
  show "those xs = Some ys \<Longrightarrow> xs = map Some ys"
  proof (induction xs arbitrary: ys)
    case Nil
    then show ?case by simp
  next
    case (Cons x xs)
    then show ?case
      by (cases x; cases "those xs") auto
  qed
next
  show "xs = map Some ys \<Longrightarrow> those xs = Some ys"
    by (simp add: those_map_Some)
qed

lemma those_eq_None_iff: "those xs = None \<longleftrightarrow> None \<in> set xs"
proof (induction xs)
  case Nil
  show ?case by simp
next
  case (Cons x xs)
  then show ?case by (cases x) (auto simp: map_option_case split: option.splits)
qed

lemma length_those: "those xs = Some ys \<Longrightarrow> length ys = length xs"
  by (simp add: those_eq_Some_iff)

lemma length_to_numeric_ignore: "length (to_numeric_ignore num cs) = length cs"
  by (auto simp: to_numeric_ignore_def Let_def dest: length_those split: option.splits)

lemma length_to_datetime: "to_datetime strp cs = Some ts \<Longrightarrow> length ts = length cs"
  by (auto simp: to_datetime_def dest: length_those)

lemma length_replace_hyphen: "length (replace_hyphen cs) = length cs"
  by (simp add: replace_hyphen_def)

lemma length_series: "length (series i df) = length (rows df)"
  by (simp add: series_def)

lemma columns_assign: "columns (assign i vs df) = columns df"
  by (simp add: assign_def)

lemma length_rows_assign:
  "length vs = length (rows df) \<Longrightarrow> length (rows (assign i vs df)) = length (rows df)"
  by (simp add: assign_def)

lemma rectangular_assign: "rectangular df \<Longrightarrow> rectangular (assign i vs df)"
  by (auto simp: rectangular_def assign_def dest!: set_zip_leftD)

lemma series_assign:
  assumes "length vs = length (rows df)" and "rectangular df" and "i < length (columns df)"
  shows "series j (assign i vs df) = (if j = i then vs else series j df)"
proof (rule nth_equalityI)
  show "length (series j (assign i vs df)) = length (if j = i then vs else series j df)"
    using assms(1) by (simp add: series_def assign_def)
next
  fix k
  assume "k < length (series j (assign i vs df))"
  with assms(1) have k: "k < length (rows df)" "k < length vs"
    by (simp_all add: series_def assign_def)
  then have "rows df ! k \<in> set (rows df)" by simp
  with assms(2,3) have "i < length (rows df ! k)" by (simp add: rectangular_def)
  with k show "series j (assign i vs df) ! k = (if j = i then vs else series j df) ! k"
    by (simp add: series_def assign_def)
qed

lemma set_label_positions:
  "set (label_positions df c) = {k. k < length (columns df) \<and> columns df ! k = c}"
  by (auto simp: label_positions_def)

lemma label_positions_single:
  assumes "label_positions df c = [i]"
  shows "i < length (columns df) \<and> columns df ! i = c \<and>
    (\<forall>k < length (columns df). columns df ! k = c \<longrightarrow> k = i)"
  using set_label_positions [of df c] by (auto simp: assms)

lemma label_positions_distinct:
  assumes "distinct (columns df)" and "i < length (columns df)"
  shows "label_positions df (columns df ! i) = [i]"
proof -
  have d: "distinct (label_positions df (columns df ! i))"
    by (simp add: label_positions_def)
  have s: "set (label_positions df (columns df ! i)) = {i}"
    using assms by (auto simp: set_label_positions nth_eq_iff_index_eq)
  show ?thesis
  proof (cases "label_positions df (columns df ! i)")
    case Nil
    with s show ?thesis by simp
  next
    case (Cons a as)
    with s have a: "a = i" and "set as \<subseteq> {i}" by auto
    moreover from d Cons have "a \<notin> set as" by simp
    ultimately have "as = []" by (cases as) auto
    with a Cons show ?thesis by simp
  qed
qed

subsection \<open>The two conversions of \<open>create_dataframe\<close>\<close>

lemma convert_numeric_columns_series:
  assumes "convert_numeric_columns num names df = Inr df'"
    and "columns df = pre @ names" and "rectangular df"
  shows "columns df' = columns df \<and> length (rows df') = length (rows df) \<and> rectangular df' \<and>
    (\<forall>j < length (columns df). series j df' =
       (if length pre \<le> j \<and> columns df ! j \<noteq> ''Time''
        then to_numeric_ignore num (replace_hyphen (series j df)) else series j df))"
  using assms
proof (induction names arbitrary: pre df)
  case Nil
  then show ?case by simp
next
  case (Cons c names)
  have cols': "columns df = (pre @ [c]) @ names" using Cons.prems(2) by simp
  have at: "columns df ! length pre = c" using Cons.prems(2) by simp
  have lt: "length pre < length (columns df)" using Cons.prems(2) by simp
  show ?case
  proof (cases "c = ''Time''")
    case True
    with Cons.prems(1) have "convert_numeric_columns num names df = Inr df'" by simp
    from Cons.IH [OF this cols' Cons.prems(3)] show ?thesis
      using at True by (auto simp: le_Suc_eq Suc_le_eq)
  next
    case False
    let ?vs = "to_numeric_ignore num (replace_hyphen (series (length pre) df))"
    from Cons.prems(1) False obtain i where
      pos: "label_positions df c = [i]" and
      rest: "convert_numeric_columns num names
        (assign i (to_numeric_ignore num (replace_hyphen (series i df))) df) = Inr df'"
      by (auto split: list.splits)
    from label_positions_single [OF pos] at lt have i: "i = length pre" by auto
    let ?df1 = "assign (length pre) ?vs df"
    have len: "length ?vs = length (rows df)"
      by (simp add: length_to_numeric_ignore length_replace_hyphen length_series)
    have rect1: "rectangular ?df1" using Cons.prems(3) by (rule rectangular_assign)
    have cols1: "columns ?df1 = (pre @ [c]) @ names"
      using cols' by (simp add: columns_assign)
    from rest i have rest': "convert_numeric_columns num names ?df1 = Inr df'" by simp
    note ih = Cons.IH [OF rest' cols1 rect1]
    have ser: "series j ?df1 = (if j = length pre then ?vs else series j df)" for j
      using len Cons.prems(3) lt by (rule series_assign)
    show ?thesis
    proof (intro conjI allI impI)
      show "columns df' = columns df" using ih by (simp add: columns_assign)
      show "length (rows df') = length (rows df)"
        using ih len by (simp add: length_rows_assign)
      show "rectangular df'" using ih by simp
    next
      fix j
      assume j: "j < length (columns df)"
      with ih have "series j df' =
          (if length (pre @ [c]) \<le> j \<and> columns df ! j \<noteq> ''Time''
           then to_numeric_ignore num (replace_hyphen (series j ?df1)) else series j ?df1)"
        by (simp add: columns_assign)
      then show "series j df' =
          (if length pre \<le> j \<and> columns df ! j \<noteq> ''Time''
           then to_numeric_ignore num (replace_hyphen (series j df)) else series j df)"
        using at False by (auto simp: ser)
    qed
  qed
qed

lemma convert_numeric_columns_distinct:
  assumes "distinct (columns df)" and "columns df = pre @ names"
  shows "\<exists>df'. convert_numeric_columns num names df = Inr df'"
  using assms
proof (induction names arbitrary: pre df)
  case Nil
  show ?case by simp
next
  case (Cons c names)
  have cols': "columns df = (pre @ [c]) @ names" using Cons.prems(2) by simp
  have at: "columns df ! length pre = c" using Cons.prems(2) by simp
  have lt: "length pre < length (columns df)" using Cons.prems(2) by simp
  show ?case
  proof (cases "c = ''Time''")
    case True
    with Cons.IH [OF Cons.prems(1) cols'] show ?thesis by simp
  next
    case False
    have pos: "label_positions df c = [length pre]"
      using label_positions_distinct [OF Cons.prems(1) lt] at by simp
    let ?df1 = "assign (length pre)
      (to_numeric_ignore num (replace_hyphen (series (length pre) df))) df"
    have "distinct (columns ?df1)" "columns ?df1 = (pre @ [c]) @ names"
      using Cons.prems(1) cols' by (simp_all add: columns_assign)
    from Cons.IH [OF this] show ?thesis
      using False pos by simp
  qed
qed

lemma convert_time_column_series:
  assumes "convert_time_column strp df = (df1, out)" and "rectangular df"
  shows "columns df1 = columns df \<and> length (rows df1) = length (rows df) \<and> rectangular df1 \<and>
    (\<forall>j < length (columns df). columns df ! j \<noteq> ''Time'' \<longrightarrow> series j df1 = series j df)"
proof (cases "\<exists>i ts. label_positions df ''Time'' = [i] \<and> to_datetime strp (series i df) = Some ts")
  case True
  then obtain i ts where pos: "label_positions df ''Time'' = [i]"
    and ts: "to_datetime strp (series i df) = Some ts" by blast
  from label_positions_single [OF pos] have i: "i < length (columns df)" "columns df ! i = ''Time''"
    by auto
  then have "''Time'' \<in> set (columns df)" by (metis nth_mem)
  with assms(1) pos ts have df1: "df1 = assign i ts df"
    by (simp add: convert_time_column_def)
  have len: "length ts = length (rows df)"
    using length_to_datetime [OF ts] by (simp add: length_series)
  show ?thesis
    using i len assms(2)
    by (auto simp: df1 columns_assign length_rows_assign rectangular_assign series_assign)
next
  case False
  with assms(1) have "df1 = df"
    by (auto simp: convert_time_column_def split: if_splits list.splits option.splits)
  with assms(2) show ?thesis by simp
qed

lemma to_datetime_Text:
  fixes strp :: "string \<Rightarrow> 't option"
  shows "to_datetime strp (map Text ss) =
     (if \<forall>s \<in> set ss. strp s \<noteq> None
      then Some (map (timestamp_cell strp) ss :: ('t, 'n) cell list) else None)"
proof (cases "\<forall>s \<in> set ss. strp s \<noteq> None")
  case True
  then have eq: "map (\<lambda>c. case c of Text s \<Rightarrow> map_option Timestamp (strp s) | _ \<Rightarrow> Some c)
      (map Text ss) = map Some (map (timestamp_cell strp) ss :: ('t, 'n) cell list)"
    by (auto simp: timestamp_cell_def)
  have "to_datetime strp (map Text ss) = Some (map (timestamp_cell strp) ss :: ('t, 'n) cell list)"
    unfolding to_datetime_def by (subst eq) (rule those_map_Some)
  with True show ?thesis by simp
next
  case False
  then obtain s where "s \<in> set ss" "strp s = None" by auto
  then have "None \<in> set (map (\<lambda>c. case c of Text s \<Rightarrow> map_option Timestamp (strp s) | _ \<Rightarrow> Some c)
      (map Text ss :: ('t, 'n) cell list))"
    by (force simp: image_iff)
  then have "to_datetime strp (map Text ss :: ('t, 'n) cell list) = None"
    unfolding to_datetime_def by (subst those_eq_None_iff)
  with False show ?thesis by simp
qed

lemma replace_hyphen_Text: "replace_hyphen (map Text ss) = map text_cell ss"
  by (simp add: replace_hyphen_def text_cell_def)

lemma cell_token_text_cell:
  "map cell_token (map text_cell ss :: ('t, 'n) cell list) = column_tokens ss"
  by (simp add: cell_token_def text_cell_def column_tokens_def)

lemma to_numeric_ignore_text_cell:
  fixes num :: "'n numeric_reader"
  shows "to_numeric_ignore num (map text_cell ss) =
     (if converts num ss
      then map (number_cell num ss) ss else (map text_cell ss :: ('t, 'n) cell list))"
proof (cases "\<forall>s \<in> set ss. s = ''-'' \<or> read_token num s \<noteq> None")
  case True
  then have eq: "map (\<lambda>c. case c of
        Text s \<Rightarrow> map_option (\<lambda>n. Num (dtype_cast num (column_tokens ss) n)) (read_token num s)
      | _ \<Rightarrow> Some c)
      (map text_cell ss) = map Some (map (number_cell num ss) ss :: ('t, 'n) cell list)"
    by (auto simp: text_cell_def number_cell_def)
  have "to_numeric_ignore num (map text_cell ss) =
      (if dtype_conflict num (column_tokens ss) then map text_cell ss
       else (map (number_cell num ss) ss :: ('t, 'n) cell list))"
    unfolding to_numeric_ignore_def Let_def cell_token_text_cell
    by (subst eq, subst those_map_Some) simp
  moreover have "converts num ss \<longleftrightarrow> \<not> dtype_conflict num (column_tokens ss)"
    using True by (simp add: converts_def list_all_iff)
  ultimately show ?thesis by (cases "dtype_conflict num (column_tokens ss)") simp_all
next
  case False
  then obtain s where "s \<in> set ss" "s \<noteq> ''-''" "read_token num s = None" by auto
  then have "None \<in> set (map (\<lambda>c. case c of
        Text s \<Rightarrow> map_option (\<lambda>n. Num (dtype_cast num (column_tokens ss) n)) (read_token num s)
      | _ \<Rightarrow> Some c)
      (map text_cell ss :: ('t, 'n) cell list))"
    by (force simp: image_iff text_cell_def)
  then have n: "those (map (\<lambda>c. case c of
        Text s \<Rightarrow> map_option (\<lambda>n. Num (dtype_cast num (column_tokens ss) n)) (read_token num s)
      | _ \<Rightarrow> Some c)
      (map text_cell ss :: ('t, 'n) cell list)) = None"
    by (subst those_eq_None_iff)
  have "to_numeric_ignore num (map text_cell ss :: ('t, 'n) cell list) = map text_cell ss"
    unfolding to_numeric_ignore_def Let_def cell_token_text_cell by (subst n) simp
  moreover have "\<not> converts num ss"
    using False by (simp add: converts_def list_all_iff)
  ultimately show ?thesis by (simp only: if_False)
qed

lemma collect_rows:
  assumes "collect None [] ls = (Some cols, data)"
  shows "\<forall>r \<in> set data. length r = length cols"
  using assms by (auto simp: collect_None split: list.splits)

lemma rectangular_DataFrame:
  "\<forall>r \<in> set data. length r = length cols \<Longrightarrow> rectangular (DataFrame data cols)"
  by (simp add: rectangular_def DataFrame_def)

lemma series_DataFrame:
  assumes "\<forall>r \<in> set data. length r = length cols" and "j < length cols"
  shows "series j (DataFrame data cols) = map Text (raw_column j data)"
  using assms by (simp add: series_def DataFrame_def raw_column_def)

lemma convert_time_column_cases:
  assumes "convert_time_column strp df = (df1, out)"
  shows "(''Time'' \<notin> set (columns df) \<longrightarrow> df1 = df \<and> out = []) \<and>
    (\<forall>j. label_positions df ''Time'' = [j] \<longrightarrow>
       (case to_datetime strp (series j df) of
          Some ts \<Rightarrow> df1 = assign j ts df \<and> out = []
        | None \<Rightarrow> df1 = df \<and>
            out = [Error_converting_time_values, Time_column_left_as_string])) \<and>
    (''Time'' \<in> set (columns df) \<and> (\<forall>j. label_positions df ''Time'' \<noteq> [j]) \<longrightarrow>
       df1 = df \<and> out = [Error_converting_time_values, Time_column_left_as_string])"
proof -
  have "''Time'' \<in> set (columns df)" if "label_positions df ''Time'' = [j]" for j
    using label_positions_single [OF that] by (metis nth_mem)
  then show ?thesis
    using assms
    by (auto simp: convert_time_column_def split: if_splits list.splits option.splits)
qed

lemma distinct_singleton_set:
  assumes "distinct xs" and "set xs = {i}"
  shows "xs = [i]"
proof (cases xs)
  case Nil
  with assms(2) show ?thesis by simp
next
  case (Cons a as)
  with assms(2) have a: "a = i" and "set as \<subseteq> {i}" by auto
  moreover from assms(1) Cons have "a \<notin> set as" by simp
  ultimately have "as = []" by (cases as) auto
  with a Cons show ?thesis by simp
qed

lemma label_positions_single_iff:
  assumes "i < length (columns df)" and "columns df ! i = c"
  shows "label_positions df c = [i] \<longleftrightarrow>
    (\<forall>k < length (columns df). columns df ! k = c \<longrightarrow> k = i)"
proof
  assume "label_positions df c = [i]"
  from label_positions_single [OF this]
  show "\<forall>k < length (columns df). columns df ! k = c \<longrightarrow> k = i" by blast
next
  assume u: "\<forall>k < length (columns df). columns df ! k = c \<longrightarrow> k = i"
  have "distinct (label_positions df c)" by (simp add: label_positions_def)
  moreover have "set (label_positions df c) = {i}"
    unfolding set_label_positions using assms u by blast
  ultimately show "label_positions df c = [i]" by (rule distinct_singleton_set)
qed

lemma create_dataframe_table:
  fixes strp :: "string \<Rightarrow> 't option" and num :: "'n numeric_reader"
    and df :: "('t, 'n) dataframe"
  assumes c: "collect None [] ls = (Some cols, data)" and ne: "cols \<noteq> []" "data \<noteq> []"
    and r: "create_dataframe strp num ls = Inr (df, out)"
  shows "columns df = cols" and "length (rows df) = length data" and "rectangular df"
    and "\<And>j. j < length cols \<Longrightarrow> cols ! j \<noteq> ''Time'' \<Longrightarrow> series j df =
      (if converts num (raw_column j data)
       then map (number_cell num (raw_column j data)) (raw_column j data)
       else map text_cell (raw_column j data))"
    and "\<And>j. j < length cols \<Longrightarrow> cols ! j = ''Time'' \<Longrightarrow> series j df =
      (if (\<forall>k < length cols. cols ! k = ''Time'' \<longrightarrow> k = j) \<and>
          (\<forall>s \<in> set (raw_column j data). strp s \<noteq> None)
       then map (timestamp_cell strp) (raw_column j data) else map Text (raw_column j data))"
    and "\<And>j. j < length cols \<Longrightarrow> cols ! j = ''Time'' \<Longrightarrow> out =
      (if (\<forall>k < length cols. cols ! k = ''Time'' \<longrightarrow> k = j) \<and>
          (\<forall>s \<in> set (raw_column j data). strp s \<noteq> None)
       then [] else time_warning)"
    and "''Time'' \<notin> set cols \<Longrightarrow> out = []"
proof -
  let ?df0 = "DataFrame data cols :: ('t, 'n) dataframe"
  have rows0: "\<forall>r \<in> set data. length r = length cols" using c by (rule collect_rows)
  then have rect0: "rectangular ?df0" by (rule rectangular_DataFrame)
  have cols0: "columns ?df0 = cols" by (simp add: DataFrame_def)
  have len0: "length (rows ?df0) = length data" by (simp add: DataFrame_def)
  have ser0: "series j ?df0 = map Text (raw_column j data)" if "j < length cols" for j
    using rows0 that by (rule series_DataFrame)
  obtain df1 out1 where t: "convert_time_column strp ?df0 = (df1, out1)"
    by (cases "convert_time_column strp ?df0")
  from r have "(case convert_numeric_columns num (columns df1) df1 of
      Inl e \<Rightarrow> Inl e | Inr df' \<Rightarrow> Inr (df', out1)) = Inr (df, out)"
    by (simp add: create_dataframe_def c ne t)
  then have n: "convert_numeric_columns num (columns df1) df1 = Inr df" and out: "out = out1"
    by (cases "convert_numeric_columns num (columns df1) df1"; simp)+
  note t1 = convert_time_column_series [OF t rect0]
  from t1 have cols1: "columns df1 = cols" and len1: "length (rows df1) = length data"
    and rect1: "rectangular df1"
    by (simp_all add: cols0 len0)
  have "columns df1 = [] @ columns df1" by simp
  note n1 = convert_numeric_columns_series [OF n this rect1]
  from n1 show "columns df = cols" "length (rows df) = length data" "rectangular df"
    by (simp_all add: cols1 len1)
  have pos_iff: "label_positions ?df0 ''Time'' = [j] \<longleftrightarrow>
      (\<forall>k < length cols. cols ! k = ''Time'' \<longrightarrow> k = j)"
    if j: "j < length cols" "cols ! j = ''Time''" for j
    using label_positions_single_iff [of j ?df0 "''Time''"] j by (simp only: cols0)
  note tc = convert_time_column_cases [OF t]
  from tc have tc_absent: "''Time'' \<notin> set cols \<Longrightarrow> df1 = ?df0 \<and> out1 = []"
    by (simp add: cols0)
  from tc have tc_single: "label_positions ?df0 ''Time'' = [j] \<Longrightarrow>
      (case to_datetime strp (series j ?df0) of
         Some ts \<Rightarrow> df1 = assign j ts ?df0 \<and> out1 = []
       | None \<Rightarrow> df1 = ?df0 \<and> out1 = time_warning)" for j
    unfolding time_warning_def by blast
  from tc have tc_many: "''Time'' \<in> set cols \<Longrightarrow> (\<And>j. label_positions ?df0 ''Time'' \<noteq> [j]) \<Longrightarrow>
      df1 = ?df0 \<and> out1 = time_warning"
    unfolding time_warning_def cols0 by blast
  {
    fix j assume j: "j < length cols" "cols ! j \<noteq> ''Time''"
    from n1 j have "series j df = to_numeric_ignore num (replace_hyphen (series j df1))"
      by (simp add: cols1)
    also from t1 j have "series j df1 = series j ?df0" by (simp add: cols0)
    also have "\<dots> = map Text (raw_column j data)" using j(1) by (rule ser0)
    finally show "series j df =
      (if converts num (raw_column j data)
       then map (number_cell num (raw_column j data)) (raw_column j data)
       else map text_cell (raw_column j data))"
      by (simp only: replace_hyphen_Text to_numeric_ignore_text_cell)
  }
  {
    fix j assume j: "j < length cols" "cols ! j = ''Time''"
    define ok where "ok \<longleftrightarrow> (\<forall>k < length cols. cols ! k = ''Time'' \<longrightarrow> k = j) \<and>
      (\<forall>s \<in> set (raw_column j data). strp s \<noteq> None)"
    from n1 j have sdf: "series j df = series j df1" by (simp add: cols1)
    from j have mem: "''Time'' \<in> set cols" by (metis nth_mem)
    have both: "series j df1 =
        (if ok then map (timestamp_cell strp) (raw_column j data) else map Text (raw_column j data)) \<and>
        out1 = (if ok then [] else time_warning)"
    proof (cases "label_positions ?df0 ''Time'' = [j]")
      case True
      then have u: "\<forall>k < length cols. cols ! k = ''Time'' \<longrightarrow> k = j"
        using pos_iff [OF j] by simp
      show ?thesis
      proof (cases "\<forall>s \<in> set (raw_column j data). strp s \<noteq> None")
        case all: True
        then have "to_datetime strp (series j ?df0) =
            Some (map (timestamp_cell strp) (raw_column j data))"
          by (simp add: ser0 [OF j(1)] to_datetime_Text)
        with tc_single [OF True]
        have "df1 = assign j (map (timestamp_cell strp) (raw_column j data)) ?df0"
          and "out1 = []" by simp_all
        moreover have "series j (assign j (map (timestamp_cell strp) (raw_column j data)) ?df0) =
            map (timestamp_cell strp) (raw_column j data)"
          using rect0 j(1) by (subst series_assign) (simp_all add: len0 cols0 raw_column_def)
        moreover have ok using u all unfolding ok_def by blast
        ultimately show ?thesis by simp
      next
        case False
        then have "to_datetime strp (series j ?df0) = None"
          by (simp add: ser0 [OF j(1)] to_datetime_Text)
        with tc_single [OF True] have "df1 = ?df0" and "out1 = time_warning"
          by simp_all
        moreover have "\<not> ok" using False unfolding ok_def by blast
        ultimately show ?thesis by (simp add: ser0 [OF j(1)])
      qed
    next
      case False
      then have nu: "\<not> (\<forall>k < length cols. cols ! k = ''Time'' \<longrightarrow> k = j)"
        using pos_iff [OF j] by simp
      have "label_positions ?df0 ''Time'' \<noteq> [j']" for j'
      proof
        assume p: "label_positions ?df0 ''Time'' = [j']"
        from label_positions_single [OF p] j have "j = j'" by (simp add: cols0)
        with p False show False by simp
      qed
      with tc_many [OF mem] have "df1 = ?df0" and "out1 = time_warning"
        by simp_all
      moreover have "\<not> ok" using nu unfolding ok_def by blast
      ultimately show ?thesis by (simp add: ser0 [OF j(1)])
    qed
    from both sdf show "series j df =
      (if (\<forall>k < length cols. cols ! k = ''Time'' \<longrightarrow> k = j) \<and>
          (\<forall>s \<in> set (raw_column j data). strp s \<noteq> None)
       then map (timestamp_cell strp) (raw_column j data) else map Text (raw_column j data))"
      unfolding ok_def by (simp only:)
    from both out show "out =
      (if (\<forall>k < length cols. cols ! k = ''Time'' \<longrightarrow> k = j) \<and>
          (\<forall>s \<in> set (raw_column j data). strp s \<noteq> None)
       then [] else time_warning)"
      unfolding ok_def by (simp only:)
  }
  show "out = []" if "''Time'' \<notin> set cols"
    using tc_absent [OF that] out by simp
qed

subsection \<open>Tables of blocks\<close>

lemma cell_series: "i < length (rows df) \<Longrightarrow> rows df ! i ! j = series j df ! i"
  by (simp add: series_def)

lemma raw_column_nth: "i < length data \<Longrightarrow> raw_column j data ! i = data ! i ! j"
  by (simp add: raw_column_def)



lemma create_dataframe_distinct:
  fixes strp :: "string \<Rightarrow> 't option" and num :: "'n numeric_reader"
  assumes "collect None [] ls = (Some cols, data)" and "distinct cols"
  shows "\<exists>(df :: ('t, 'n) dataframe) out. create_dataframe strp num ls = Inr (df, out)"
proof (cases "cols = [] \<or> data = []")
  case True
  with assms(1) show ?thesis by (simp add: create_dataframe_def)
next
  case False
  let ?df0 = "DataFrame data cols :: ('t, 'n) dataframe"
  obtain df1 out1 where t: "convert_time_column strp ?df0 = (df1, out1)"
    by (cases "convert_time_column strp ?df0")
  have "rectangular ?df0"
    using collect_rows [OF assms(1)] by (rule rectangular_DataFrame)
  from convert_time_column_series [OF t this] have cols1: "columns df1 = cols"
    by (simp add: DataFrame_def)
  with assms(2) have "distinct (columns df1)" "columns df1 = [] @ columns df1" by simp_all
  from convert_numeric_columns_distinct [OF this]
  obtain df where "convert_numeric_columns num (columns df1) df1 = Inr df" by blast
  with False assms(1) t show ?thesis by (simp add: create_dataframe_def)
qed




subsection \<open>Rows\<close>




subsection \<open>Numeric columns\<close>

text \<open>
  C2, as the code has it. In a table that is not empty, a column whose name is not
  \<open>Time\<close> is converted as a whole or not at all. When every token of the column is
  a hyphen or reads as a number, and the column has a common dtype, each cell is
  missing (for a hyphen) or the number in the dtype of the column. Otherwise, that is
  when one token is neither or when the numbers have no common dtype, every cell of
  the column is missing (for a hyphen) or the original text, also the cells whose
  token reads as a number on its own.
\<close>

theorem numeric_column_as_a_whole:
  "collect None [] block_lines = (Some cols, data) \<and> cols \<noteq> [] \<and> data \<noteq> [] \<and>
   create_dataframe strp num block_lines = Inr (df, out) \<and>
   i < length data \<and> j < length cols \<and> cols ! j \<noteq> ''Time'' \<longrightarrow>
   rows df ! i ! j =
     (if converts num (raw_column j data)
      then number_cell num (raw_column j data) (data ! i ! j)
      else text_cell (data ! i ! j))"
proof (intro impI, elim conjE)
  assume c: "collect None [] block_lines = (Some cols, data)" and ne: "cols \<noteq> []" "data \<noteq> []"
    and r: "create_dataframe strp num block_lines = Inr (df, out)"
    and i: "i < length data" and j: "j < length cols" and nt: "cols ! j \<noteq> ''Time''"
  note tab = create_dataframe_table [OF c ne r]
  from i tab(2) have cell: "rows df ! i ! j = series j df ! i" by (simp add: cell_series)
  from i have len: "i < length (raw_column j data)" by (simp add: raw_column_def)
  show "rows df ! i ! j =
     (if converts num (raw_column j data)
      then number_cell num (raw_column j data) (data ! i ! j)
      else text_cell (data ! i ! j))"
    using tab(4) [OF j nt] len by (simp add: cell raw_column_nth [OF i])
qed

theorem numeric_column_as_a_whole_witness:
  "collect None [] numeric_block = (Some [''A''], [[''1''], [''-''], [''2.5'']]) \<and>
   create_dataframe strptime str_to_number numeric_block =
     Inr (\<lparr>columns = [''A''], rows = [[Num 1], [NA], [Num (5 / 2)]]\<rparr>, []) \<and>
   converts str_to_number (raw_column 0 [[''1''], [''-''], [''2.5'']]) \<and>
   (Num (5 / 2) :: (datetime, rat) cell) =
     number_cell str_to_number (raw_column 0 [[''1''], [''-''], [''2.5'']]) ''2.5'' \<and>
   collect None [] unsigned_block =
     (Some [''A''], [[''9223372036854775808''], [''-1'']]) \<and>
   read_token str_to_number ''9223372036854775808'' = Some 9223372036854775808 \<and>
   read_token str_to_number ''-1'' = Some (- 1) \<and>
   create_dataframe strptime str_to_number unsigned_block =
     Inr (\<lparr>columns = [''A''], rows = [[Text ''9223372036854775808''], [Text ''-1'']]\<rparr>, [])"
proof -
  let ?df = "\<lparr>columns = [''A''], rows = [[Num 1], [NA], [Num (5 / 2)]]\<rparr> :: (datetime, rat) dataframe"
  let ?du = "\<lparr>columns = [''A''], rows = [[Text ''9223372036854775808''], [Text ''-1'']]\<rparr>
    :: (datetime, rat) dataframe"
  have c: "collect None [] numeric_block = (Some [''A''], [[''1''], [''-''], [''2.5'']])"
    by code_simp
  have d: "create_dataframe strptime str_to_number numeric_block = Inr (?df, [])"
    by code_simp
  have a: "converts str_to_number (raw_column 0 [[''1''], [''-''], [''2.5'']])"
    by code_simp
  have n: "[''A''] \<noteq> []" "[[''1''], [''-''], [''2.5'']] \<noteq> []"
    "(2 :: nat) < length [[''1''], [''-''], [''2.5'']]" "(0 :: nat) < length [''A'']"
    "[''A''] ! 0 \<noteq> ''Time''"
    by simp_all
  from numeric_column_as_a_whole [of numeric_block "[''A'']" "[[''1''], [''-''], [''2.5'']]"
      strptime str_to_number ?df "[]" 2 0] c d a n
  have "rows ?df ! 2 ! 0 =
      number_cell str_to_number (raw_column 0 [[''1''], [''-''], [''2.5'']])
        ([[''1''], [''-''], [''2.5'']] ! 2 ! 0)"
    by (simp only: if_True simp_thms)
  then have v: "(Num (5 / 2) :: (datetime, rat) cell) =
      number_cell str_to_number (raw_column 0 [[''1''], [''-''], [''2.5'']]) ''2.5''"
    by simp
  have cu: "collect None [] unsigned_block =
      (Some [''A''], [[''9223372036854775808''], [''-1'']])"
    by code_simp
  have t1: "read_token str_to_number ''9223372036854775808'' = Some 9223372036854775808"
    by code_simp
  have t2: "read_token str_to_number ''-1'' = Some (- 1)" by code_simp
  have du: "create_dataframe strptime str_to_number unsigned_block = Inr (?du, [])"
    by code_simp
  from c d a v cu t1 t2 du show ?thesis by blast
qed

theorem numeric_column_per_cell_counterexample:
  "create_dataframe strptime str_to_number mixed_block =
     Inr (\<lparr>columns = [''A''], rows = [[Text ''1''], [Text ''x'']]\<rparr>, []) \<and>
   read_token str_to_number ''1'' = Some 1 \<and> read_token str_to_number ''x'' = None \<and>
   (Text ''1'' :: (datetime, rat) cell) \<noteq> Num 1"
  by code_simp

subsection \<open>The hyphen\<close>

text \<open>
  C3, as the code has it. In a table that is not empty, a cell whose token is the
  hyphen is missing in every column whose name is not \<open>Time\<close>, whether or not the
  column became numeric. In a column named \<open>Time\<close> the hyphen is not replaced: when
  it does not match the date format, the cell stays the text of the hyphen.
\<close>

theorem hyphen_missing_outside_time:
  "collect None [] block_lines = (Some cols, data) \<and> cols \<noteq> [] \<and> data \<noteq> [] \<and>
   create_dataframe strp num block_lines = Inr (df, out) \<and>
   i < length data \<and> j < length cols \<and> data ! i ! j = ''-'' \<longrightarrow>
   (cols ! j \<noteq> ''Time'' \<longrightarrow> rows df ! i ! j = NA) \<and>
   (cols ! j = ''Time'' \<and> strp ''-'' = None \<longrightarrow> rows df ! i ! j = Text ''-'')"
proof (intro impI, elim conjE)
  assume c: "collect None [] block_lines = (Some cols, data)" and ne: "cols \<noteq> []" "data \<noteq> []"
    and r: "create_dataframe strp num block_lines = Inr (df, out)"
    and i: "i < length data" and j: "j < length cols" and h: "data ! i ! j = ''-''"
  note tab = create_dataframe_table [OF c ne r]
  from i tab(2) have cell: "rows df ! i ! j = series j df ! i" by (simp add: cell_series)
  from i have len: "i < length (raw_column j data)" by (simp add: raw_column_def)
  from i h have mem: "''-'' \<in> set (raw_column j data)"
    by (metis len nth_mem raw_column_nth)
  have numeric: "rows df ! i ! j = NA" if nt: "cols ! j \<noteq> ''Time''"
  proof -
    from tab(4) [OF j nt] len show ?thesis
      by (simp add: cell raw_column_nth [OF i] h number_cell_def text_cell_def)
  qed
  have time: "rows df ! i ! j = Text ''-''" if t: "cols ! j = ''Time''" and s: "strp ''-'' = None"
  proof -
    from mem s have "\<not> ((\<forall>k < length cols. cols ! k = ''Time'' \<longrightarrow> k = j) \<and>
        (\<forall>s \<in> set (raw_column j data). strp s \<noteq> None))"
      by blast
    with tab(5) [OF j t] have "series j df = map Text (raw_column j data)"
      by (simp only: if_False)
    with len show ?thesis
      by (simp add: cell raw_column_nth [OF i] h)
  qed
  from numeric time
  show "(cols ! j \<noteq> ''Time'' \<longrightarrow> rows df ! i ! j = NA) \<and>
    (cols ! j = ''Time'' \<and> strp ''-'' = None \<longrightarrow> rows df ! i ! j = Text ''-'')"
    by blast
qed

theorem hyphen_missing_outside_time_witness:
  "collect None [] good_time_block =
     (Some [''Time'', ''CHO''], [[''01/01/2024 08:00'', ''30''], [''02/01/2024 09:30'', ''-'']]) \<and>
   create_dataframe strptime str_to_number good_time_block =
     Inr (\<lparr>columns = [''Time'', ''CHO''],
           rows = [[Timestamp \<lparr>year = 2024, month = 1, day = 1, hour = 8, minute = 0\<rparr>, Num 30],
                   [Timestamp \<lparr>year = 2024, month = 1, day = 2, hour = 9, minute = 30\<rparr>, NA]]\<rparr>, []) \<and>
   [[''01/01/2024 08:00'', ''30''], [''02/01/2024 09:30'', ''-'']] ! 1 ! 1 = ''-'' \<and>
   [''Time'', ''CHO''] ! 1 \<noteq> ''Time'' \<and>
   rows \<lparr>columns = [''Time'', ''CHO''],
           rows = [[Timestamp \<lparr>year = 2024, month = 1, day = 1, hour = 8, minute = 0\<rparr>, Num 30],
                   [Timestamp \<lparr>year = 2024, month = 1, day = 2, hour = 9, minute = 30\<rparr>,
                    NA :: (datetime, rat) cell]]\<rparr> ! 1 ! 1 = NA \<and>
   collect None [] hyphen_time_block = (Some [''Time'', ''x''], [[''-'', ''1'']]) \<and>
   create_dataframe strptime str_to_number hyphen_time_block =
     Inr (\<lparr>columns = [''Time'', ''x''], rows = [[Text ''-'', Num 1]]\<rparr>, time_warning) \<and>
   strptime ''-'' = None \<and>
   rows \<lparr>columns = [''Time'', ''x''],
           rows = [[Text ''-'', Num (1 :: rat) :: (datetime, rat) cell]]\<rparr> ! 0 ! 0 = Text ''-''"
proof -
  let ?cols = "[''Time'', ''CHO'']"
  let ?data = "[[''01/01/2024 08:00'', ''30''], [''02/01/2024 09:30'', ''-'']]"
  let ?df = "\<lparr>columns = [''Time'', ''CHO''],
    rows = [[Timestamp \<lparr>year = 2024, month = 1, day = 1, hour = 8, minute = 0\<rparr>, Num 30],
            [Timestamp \<lparr>year = 2024, month = 1, day = 2, hour = 9, minute = 30\<rparr>, NA]]\<rparr>
    :: (datetime, rat) dataframe"
  have c: "collect None [] good_time_block = (Some ?cols, ?data)" by code_simp
  have d: "create_dataframe strptime str_to_number good_time_block = Inr (?df, [])"
    by code_simp
  have n: "?cols \<noteq> []" "?data \<noteq> []" by simp_all
  have i: "(1 :: nat) < length ?data" "(1 :: nat) < length ?cols" by simp_all
  have h: "?data ! 1 ! 1 = ''-''" by simp
  have t: "?cols ! 1 \<noteq> ''Time''" by simp
  from hyphen_missing_outside_time [of good_time_block ?cols ?data strptime str_to_number
      ?df "[]" 1 1] c d n i h t
  have first: "rows ?df ! 1 ! 1 = NA" by blast
  let ?dh = "\<lparr>columns = [''Time'', ''x''], rows = [[Text ''-'', Num 1]]\<rparr>
    :: (datetime, rat) dataframe"
  have ch: "collect None [] hyphen_time_block = (Some [''Time'', ''x''], [[''-'', ''1'']])"
    by code_simp
  have dh: "create_dataframe strptime str_to_number hyphen_time_block = Inr (?dh, time_warning)"
    by code_simp
  have nh: "[''Time'', ''x''] \<noteq> []" "[[''-'', ''1'']] \<noteq> []"
    "(0 :: nat) < length [[''-'', ''1'']]" "(0 :: nat) < length [''Time'', ''x'']"
    "[[''-'', ''1'']] ! 0 ! 0 = ''-''" "[''Time'', ''x''] ! 0 = ''Time''"
    by simp_all
  have s: "strptime ''-'' = None" by code_simp
  from hyphen_missing_outside_time [of hyphen_time_block "[''Time'', ''x'']" "[[''-'', ''1'']]"
      strptime str_to_number ?dh time_warning 0 0] ch dh nh s
  have second: "rows ?dh ! 0 ! 0 = Text ''-''" by blast
  from c d h t first ch dh s second show ?thesis by blast
qed

theorem hyphen_in_time_column_counterexample:
  "create_dataframe strptime str_to_number hyphen_time_block =
     Inr (\<lparr>columns = [''Time'', ''x''], rows = [[Text ''-'', Num 1]]\<rparr>, time_warning) \<and>
   parse_data_line (tsv [''-'', ''1'']) = [''-'', ''1''] \<and>
   (Text ''-'' :: (datetime, rat) cell) \<noteq> NA"
  by code_simp

subsection \<open>The \<open>Time\<close> column\<close>

text \<open>
  C4, as the code has it. Take a block whose column names are pairwise distinct, with
  \<open>Time\<close> among them, and with at least one accepted row. Then \<open>create_dataframe\<close>
  returns a table. When every token of the \<open>Time\<close> column matches the format, every
  cell of the column is the timestamp read and nothing is printed; when one token does
  not, every cell of the column is the original text and the two lines of the warning
  are printed. Either way \<open>process_blocks\<close> stores the table and goes on.
\<close>

theorem time_column_all_or_nothing:
  "collect None [] block_lines = (Some cols, data) \<and> cols \<noteq> [] \<and> data \<noteq> [] \<and>
   distinct cols \<and> j < length cols \<and> cols ! j = ''Time'' \<longrightarrow>
   (\<exists>df out. create_dataframe strp num block_lines = Inr (df, out) \<and>
      (if \<forall>s \<in> set (raw_column j data). strp s \<noteq> None
       then (\<forall>i < length data. \<exists>t. strp (data ! i ! j) = Some t \<and> rows df ! i ! j = Timestamp t) \<and>
            out = []
       else (\<forall>i < length data. rows df ! i ! j = Text (data ! i ! j)) \<and> out = time_warning) \<and>
      store_block strp num p (Some name) block_lines =
        Inr (if name \<noteq> [] \<and> block_lines \<noteq> []
             then p\<lparr>blocks := dict_set (blocks p) name df, printed := printed p @ out\<rparr>
             else p))"
proof (intro impI, elim conjE)
  assume c: "collect None [] block_lines = (Some cols, data)" and ne: "cols \<noteq> []" "data \<noteq> []"
    and d: "distinct cols" and j: "j < length cols" and t: "cols ! j = ''Time''"
  from create_dataframe_distinct [OF c d, of strp num]
  obtain df out where r: "create_dataframe strp num block_lines = Inr (df, out)" by blast
  note tab = create_dataframe_table [OF c ne r]
  define all_parse where "all_parse \<longleftrightarrow> (\<forall>s \<in> set (raw_column j data). strp s \<noteq> None)"
  have once: "\<forall>k < length cols. cols ! k = ''Time'' \<longrightarrow> k = j"
  proof (intro allI impI)
    fix k
    assume "k < length cols" and "cols ! k = ''Time''"
    with t have "cols ! k = cols ! j" by (simp only:)
    with d \<open>k < length cols\<close> j show "k = j" by (simp only: nth_eq_iff_index_eq)
  qed
  from tab(5) [OF j t] once have ser: "series j df =
      (if all_parse then map (timestamp_cell strp) (raw_column j data)
       else map Text (raw_column j data))"
    unfolding all_parse_def by simp
  from tab(6) [OF j t] once have out: "out = (if all_parse then [] else time_warning)"
    unfolding all_parse_def by simp
  have cell: "rows df ! i ! j = series j df ! i" if "i < length data" for i
    using that tab(2) by (simp add: cell_series)
  have good: "\<exists>t. strp (data ! i ! j) = Some t \<and> rows df ! i ! j = Timestamp t"
    if a: all_parse and i: "i < length data" for i
  proof -
    from i have "data ! i ! j \<in> set (raw_column j data)"
      by (metis length_map nth_mem raw_column_def raw_column_nth)
    with a obtain t where "strp (data ! i ! j) = Some t"
      unfolding all_parse_def by auto
    moreover from ser a i have "rows df ! i ! j = timestamp_cell strp (data ! i ! j)"
      by (simp add: cell raw_column_def)
    ultimately show ?thesis by (simp add: timestamp_cell_def)
  qed
  have bad: "rows df ! i ! j = Text (data ! i ! j)" if "\<not> all_parse" and "i < length data" for i
    using ser that by (simp add: cell raw_column_def)
  have cells: "if all_parse
      then (\<forall>i < length data. \<exists>t. strp (data ! i ! j) = Some t \<and> rows df ! i ! j = Timestamp t) \<and>
           out = []
      else (\<forall>i < length data. rows df ! i ! j = Text (data ! i ! j)) \<and> out = time_warning"
    using good bad out by (cases all_parse) simp_all
  have store: "store_block strp num p (Some name) block_lines =
      Inr (if name \<noteq> [] \<and> block_lines \<noteq> []
           then p\<lparr>blocks := dict_set (blocks p) name df, printed := printed p @ out\<rparr>
           else p)"
    by (simp add: store_block_def r)
  from r cells store
  show "\<exists>df out. create_dataframe strp num block_lines = Inr (df, out) \<and>
      (if \<forall>s \<in> set (raw_column j data). strp s \<noteq> None
       then (\<forall>i < length data. \<exists>t. strp (data ! i ! j) = Some t \<and> rows df ! i ! j = Timestamp t) \<and>
            out = []
       else (\<forall>i < length data. rows df ! i ! j = Text (data ! i ! j)) \<and> out = time_warning) \<and>
      store_block strp num p (Some name) block_lines =
        Inr (if name \<noteq> [] \<and> block_lines \<noteq> []
             then p\<lparr>blocks := dict_set (blocks p) name df, printed := printed p @ out\<rparr>
             else p)"
    unfolding all_parse_def by blast
qed


theorem time_column_all_or_nothing_witness:
  "collect None [] bad_time_block =
     (Some [''Time'', ''CHO''], [[''01/01/2024 08:00'', ''30''], [''not-a-date'', ''5'']]) \<and>
   distinct [''Time'', ''CHO''] \<and>
   strptime ''not-a-date'' = None \<and>
   create_dataframe strptime str_to_number bad_time_block =
     Inr (\<lparr>columns = [''Time'', ''CHO''],
           rows = [[Text ''01/01/2024 08:00'', Num 30], [Text ''not-a-date'', Num 5]]\<rparr>,
          time_warning) \<and>
   store_block strptime str_to_number new_parser (Some ''Meal'') bad_time_block =
     Inr \<lparr>blocks = [(''Meal'', \<lparr>columns = [''Time'', ''CHO''],
            rows = [[Text ''01/01/2024 08:00'', Num 30], [Text ''not-a-date'', Num 5]]\<rparr>)],
          printed = time_warning\<rparr> \<and>
   (\<exists>df out. create_dataframe strptime str_to_number bad_time_block =
      Inr (df :: (datetime, rat) dataframe, out))"
proof -
  let ?cols = "[''Time'', ''CHO'']"
  let ?data = "[[''01/01/2024 08:00'', ''30''], [''not-a-date'', ''5'']]"
  let ?df = "\<lparr>columns = [''Time'', ''CHO''],
    rows = [[Text ''01/01/2024 08:00'', Num 30], [Text ''not-a-date'', Num 5]]\<rparr>
    :: (datetime, rat) dataframe"
  have c: "collect None [] bad_time_block = (Some ?cols, ?data)" by code_simp
  have n: "?cols \<noteq> []" "?data \<noteq> []" "distinct ?cols" "(0 :: nat) < length ?cols"
    "?cols ! 0 = ''Time''"
    by simp_all
  have s: "strptime ''not-a-date'' = None" by code_simp
  have d: "create_dataframe strptime str_to_number bad_time_block = Inr (?df, time_warning)"
    by code_simp
  have b: "store_block strptime str_to_number new_parser (Some ''Meal'') bad_time_block =
      Inr \<lparr>blocks = [(''Meal'', ?df)], printed = time_warning\<rparr>"
    by code_simp
  from time_column_all_or_nothing [of bad_time_block ?cols ?data 0 strptime str_to_number
      "new_parser :: (datetime, rat) parser" "''Meal''"] c n
  have "\<exists>df out. create_dataframe strptime str_to_number bad_time_block =
      Inr (df :: (datetime, rat) dataframe, out)"
    by blast
  with c n(3) s d b show ?thesis by blast
qed

theorem time_column_repeated_label_counterexample:
  "create_dataframe strptime str_to_number twice_time_block =
     Inr (\<lparr>columns = [''Time'', ''Time''],
           rows = [[Text ''01/01/2024 08:00'', Text ''02/01/2024 09:30'']]\<rparr>, time_warning) \<and>
   strptime ''01/01/2024 08:00'' =
     Some \<lparr>year = 2024, month = 1, day = 1, hour = 8, minute = 0\<rparr> \<and>
   strptime ''02/01/2024 09:30'' =
     Some \<lparr>year = 2024, month = 1, day = 2, hour = 9, minute = 30\<rparr> \<and>
   create_dataframe strptime str_to_number twice_label_block = Inl TypeError \<and>
   process_blocks strptime str_to_number new_parser (''*** Meal ***'' # twice_label_block) =
     Inl TypeError"
  by code_simp

subsection \<open>The end-to-end scenario\<close>

text \<open>
  C1, as the code has it. On the lines of the scenario the result has two blocks. The
  first line under the header \<open>Glucose_concentration\<close> holds the hint
  \<open>(dd/mm/yyyy\<close>, so it is a format line and is skipped; the next line becomes the
  schema line with three column names, no later line has three tokens, and the table
  is empty. The block \<open>Meal\<close> has the columns \<open>Time\<close> and \<open>CHO\<close> and one row, a
  timestamp and the number 30. Nothing is printed.
\<close>

theorem scenario_result:
  "process_blocks strptime str_to_number new_parser scenario_lines =
     Inr \<lparr>blocks =
       [(''Glucose_concentration'', empty_dataframe),
        (''Meal'', \<lparr>columns = [''Time'', ''CHO''],
           rows = [[Timestamp \<lparr>year = 2024, month = 1, day = 1, hour = 8, minute = 10\<rparr>,
                    Num 30]]\<rparr>)],
       printed = []\<rparr>"
  by code_simp

theorem scenario_glucose_counterexample:
  "is_format_line (tsv [''Time (dd/mm/yyyy hh:mm)'', ''conc (mmol/L)'']) \<and>
   parse_columns (tsv [''01/01/2024 08:00'', ''5.5'']) = [''01/01/2024'', ''08:00'', ''5.5''] \<and>
   parse_data_line (tsv [''01/01/2024 08:05'', ''-'']) = [''01/01/2024 08:05'', ''-''] \<and>
   map_sum id (\<lambda>p. columns (get_block p ''Glucose_concentration''))
     (process_blocks strptime str_to_number new_parser scenario_lines) = Inr [] \<and>
   map_sum id (\<lambda>p. rows (get_block p ''Glucose_concentration''))
     (process_blocks strptime str_to_number new_parser scenario_lines) = Inr []"
  by code_simp

end
